theory Spec2Isabelle
  imports Complex_Main "HOL-Library.Word" "HOL-Library.Sublist" "HOL-Library.AList"
begin

section \<open>The Gemini Live service of the device inspection tool\<close>

text \<open>
  A shallow embedding of \<^verbatim>\<open>GeminiLiveService\<close> (the streaming response protocol
  adapter): the class, its singleton accessor, and the parts of the JavaScript runtime
  the class relies on (strings, the two regular expressions, \<^verbatim>\<open>JSON.parse\<close>,
  \<^verbatim>\<open>Date.prototype.toISOString\<close>, the WebSocket ready states).

  The runtime is single-threaded: a method or an event handler runs to its end, or to
  the \<^verbatim>\<open>await\<close> at which it is suspended, before anything else happens to the
  instance. A method is a function from the state of the
  instance to its next state; an exception is a value, and the part of a method inside a
  \<^verbatim>\<open>try\<close> block returns the exception it ended with, if any, beside the state it
  left. Logging has no part in the state.
\<close>

subsection \<open>JavaScript strings\<close>

text \<open>
  A JavaScript string is a sequence of 16-bit code units. Regular expressions without
  the \<^verbatim>\<open>u\<close> flag, \<^verbatim>\<open>trim\<close> and \<^verbatim>\<open>JSON.parse\<close> all work on code units.
  \<open>utf16\<close> writes a literal whose characters are below 256.
\<close>

type_synonym code_unit = "16 word"
type_synonym jsstring = "code_unit list"

definition utf16 :: "string \<Rightarrow> jsstring" where
  "utf16 s = map of_char s"

definition DQUOTE :: code_unit where "DQUOTE = 0x22"
definition BACKSLASH :: code_unit where "BACKSLASH = 0x5C"
definition BACKTICK :: code_unit where "BACKTICK = 0x60"
definition LBRACE :: code_unit where "LBRACE = 0x7B"
definition RBRACE :: code_unit where "RBRACE = 0x7D"
definition NEWLINE :: code_unit where "NEWLINE = 0x0A"

text \<open>
  The class \<^verbatim>\<open>\s\<close> of a regular expression, which is also what
  \<^verbatim>\<open>String.prototype.trim\<close> strips: WhiteSpace and LineTerminator of ECMA-262.
\<close>

definition isWhiteSpace :: "code_unit \<Rightarrow> bool" where
  "isWhiteSpace c =
     (c = 0x09 \<or> c = 0x0A \<or> c = 0x0B \<or> c = 0x0C \<or> c = 0x0D \<or> c = 0x20 \<or> c = 0xA0
      \<or> c = 0x1680 \<or> (0x2000 \<le> c \<and> c \<le> 0x200A) \<or> c = 0x2028 \<or> c = 0x2029
      \<or> c = 0x202F \<or> c = 0x205F \<or> c = 0x3000 \<or> c = 0xFEFF)"

definition anyChar :: "code_unit \<Rightarrow> bool" where
  \<comment> \<open>the class \<^verbatim>\<open>[\s\S]\<close>\<close>
  "anyChar c = True"

definition trim :: "jsstring \<Rightarrow> jsstring" where
  "trim s = rev (dropWhile isWhiteSpace (rev (dropWhile isWhiteSpace s)))"

subsection \<open>The regular expressions\<close>

text \<open>
  The two patterns of \<^verbatim>\<open>parseDefectReport\<close> are sequences of four kinds of item:
  a literal, an optional literal \<^verbatim>\<open>(?:lit)?\<close>, a greedy star over a character class,
  and the capturing lazy star \<^verbatim>\<open>(C*?)\<close>. \<open>rx_at\<close> is the backtracking matcher
  anchored at the start of its input: it returns the matched text and the text of the
  capture group. Greedy items try the longer alternative first, the lazy star the
  shorter one first, and a failure of the rest of the pattern backtracks into them.
\<close>

datatype rx_item =
    Lit jsstring
  | Opt jsstring
  | Star "code_unit \<Rightarrow> bool"
  | CapLazy "code_unit \<Rightarrow> bool"

type_synonym rx_result = "jsstring \<times> jsstring"

definition rx_cons :: "jsstring \<Rightarrow> rx_result option \<Rightarrow> rx_result option" where
  "rx_cons l r = (case r of None \<Rightarrow> None | Some (m, cap) \<Rightarrow> Some (l @ m, cap))"

definition rx_capture :: "code_unit \<Rightarrow> rx_result option \<Rightarrow> rx_result option" where
  "rx_capture c r = (case r of None \<Rightarrow> None | Some (m, cap) \<Rightarrow> Some (c # m, c # cap))"

definition rx_orelse :: "rx_result option \<Rightarrow> rx_result option \<Rightarrow> rx_result option" where
  "rx_orelse a b = (case a of None \<Rightarrow> b | Some r \<Rightarrow> Some r)"

fun rx_at :: "rx_item list \<Rightarrow> jsstring \<Rightarrow> rx_result option" where
  "rx_at [] s = Some ([], [])"
| "rx_at (Lit l # r) s =
     (if prefix l s then rx_cons l (rx_at r (drop (length l) s)) else None)"
| "rx_at (Opt l # r) s =
     rx_orelse (if prefix l s then rx_cons l (rx_at r (drop (length l) s)) else None)
       (rx_at r s)"
| "rx_at (Star P # r) [] = rx_at r []"
| "rx_at (Star P # r) (c # cs) =
     (if P c then rx_orelse (rx_cons [c] (rx_at (Star P # r) cs)) (rx_at r (c # cs))
      else rx_at r (c # cs))"
| "rx_at (CapLazy P # r) [] = rx_at r []"
| "rx_at (CapLazy P # r) (c # cs) =
     rx_orelse (rx_at r (c # cs))
       (if P c then rx_capture c (rx_at (CapLazy P # r) cs) else None)"

text \<open>
  \<^verbatim>\<open>String.prototype.match\<close> with a pattern that has no \<^verbatim>\<open>g\<close> flag: the leftmost
  start position at which the pattern matches. The result is \<^verbatim>\<open>(m[0], m[1])\<close>.
\<close>

fun rx_match :: "rx_item list \<Rightarrow> jsstring \<Rightarrow> rx_result option" where
  "rx_match p [] = rx_at p []"
| "rx_match p (c # cs) = rx_orelse (rx_at p (c # cs)) (rx_match p cs)"

definition codeBlockPattern :: "rx_item list" where
  \<comment> \<open>three backticks, \<^verbatim>\<open>(?:json)?\s*([\s\S]*?)\<close>, three backticks\<close>
  "codeBlockPattern =
     [Lit [BACKTICK, BACKTICK, BACKTICK], Opt (utf16 ''json''), Star isWhiteSpace,
      CapLazy anyChar, Lit [BACKTICK, BACKTICK, BACKTICK]]"

definition jsonObjectPattern :: "rx_item list" where
  \<comment> \<open>\<^verbatim>\<open>\{[\s\S]*\}\<close>\<close>
  "jsonObjectPattern = [Lit [LBRACE], Star anyChar, Lit [RBRACE]]"

text \<open>
  Lines 356 to 366 of \<^verbatim>\<open>parseDefectReport\<close>: the text the brace pattern is applied to,
  and the candidate \<^verbatim>\<open>jsonMatch[0]\<close> handed to \<^verbatim>\<open>JSON.parse\<close>.
\<close>

definition cleanText :: "jsstring \<Rightarrow> jsstring" where
  "cleanText t =
     (case rx_match codeBlockPattern t of
        Some (m, cap) \<Rightarrow> trim cap
      | None \<Rightarrow> t)"

definition jsonCandidate :: "jsstring \<Rightarrow> jsstring option" where
  "jsonCandidate t = map_option fst (rx_match jsonObjectPattern (cleanText t))"

subsection \<open>JSON values and \<^verbatim>\<open>JSON.parse\<close>\<close>

text \<open>
  The values \<^verbatim>\<open>JSON.parse\<close> returns. An object is the list of its members in the order
  of their first appearance (the class never enumerates one), and a number is the exact
  value of its literal. \<^verbatim>\<open>JSON.parse\<close> is modelled in two passes: the text is cut into
  tokens, and a parser with an explicit stack reads the tokens. No JSON token depends on
  its context, so the two passes reject a text exactly when the grammar does. The limit
  an engine puts on the depth of nesting is not modelled.
\<close>

datatype json =
    JNull
  | JBool bool
  | JNumber rat
  | JString jsstring
  | JArray "json list"
  | JObject "(jsstring \<times> json) list"

datatype js_error = SyntaxError | TypeError

datatype token =
    TLBrace | TRBrace | TLBracket | TRBracket | TColon | TComma
  | TString jsstring | TNumber rat | TTrue | TFalse | TNull

definition isDigit :: "code_unit \<Rightarrow> bool" where
  "isDigit c = (0x30 \<le> c \<and> c \<le> 0x39)"

definition digitsValue :: "jsstring \<Rightarrow> nat" where
  "digitsValue ds = foldl (\<lambda>a d. 10 * a + (unat d - 48)) 0 ds"

definition hexValue :: "code_unit \<Rightarrow> code_unit option" where
  "hexValue c =
     (if 0x30 \<le> c \<and> c \<le> 0x39 then Some (c - 0x30)
      else if 0x41 \<le> c \<and> c \<le> 0x46 then Some (c - 0x37)
      else if 0x61 \<le> c \<and> c \<le> 0x66 then Some (c - 0x57)
      else None)"

definition simpleEscape :: "code_unit \<Rightarrow> code_unit option" where
  "simpleEscape c =
     (if c = 0x22 then Some 0x22
      else if c = 0x5C then Some 0x5C
      else if c = 0x2F then Some 0x2F
      else if c = 0x62 then Some 0x08
      else if c = 0x66 then Some 0x0C
      else if c = 0x6E then Some 0x0A
      else if c = 0x72 then Some 0x0D
      else if c = 0x74 then Some 0x09
      else None)"

definition lex_cons :: "code_unit \<Rightarrow> (jsstring \<times> jsstring) option \<Rightarrow> (jsstring \<times> jsstring) option" where
  "lex_cons c r = (case r of None \<Rightarrow> None | Some (s, rest) \<Rightarrow> Some (c # s, rest))"

definition lex_escape :: "jsstring \<Rightarrow> (code_unit \<times> jsstring) option" where
  \<comment> \<open>the text after a backslash: one escape, decoded, and what follows it\<close>
  "lex_escape s =
     (case s of
        [] \<Rightarrow> None
      | e # r \<Rightarrow>
          if e = 0x75 then
            (case r of
               h1 # h2 # h3 # h4 # r' \<Rightarrow>
                 (case (hexValue h1, hexValue h2, hexValue h3, hexValue h4) of
                    (Some a, Some b, Some c, Some d) \<Rightarrow>
                      Some (a * 0x1000 + b * 0x100 + c * 0x10 + d, r')
                  | _ \<Rightarrow> None)
             | _ \<Rightarrow> None)
          else map_option (\<lambda>x. (x, r)) (simpleEscape e))"

lemma lex_escape_length: "lex_escape s = Some (x, rest) \<Longrightarrow> length rest < length s"
  by (auto simp: lex_escape_def split: list.splits if_splits option.splits)

function lex_string :: "jsstring \<Rightarrow> (jsstring \<times> jsstring) option" where
  "lex_string [] = None"
| "lex_string (c # cs) =
     (if c = DQUOTE then Some ([], cs)
      else if c = BACKSLASH then
        (case lex_escape cs of
           None \<Rightarrow> None
         | Some (x, r) \<Rightarrow> lex_cons x (lex_string r))
      else if c < 0x20 then None
      else lex_cons c (lex_string cs))"
  by pat_completeness auto
termination
  by (relation "measure length") (auto dest: lex_escape_length)

text \<open>number = [ minus ] int [ frac ] [ exp ]\<close>

definition lex_digits :: "jsstring \<Rightarrow> (jsstring \<times> jsstring) option" where
  \<comment> \<open>one or more digits\<close>
  "lex_digits s =
     (if takeWhile isDigit s = [] then None
      else Some (takeWhile isDigit s, dropWhile isDigit s))"

definition lex_int :: "jsstring \<Rightarrow> (jsstring \<times> jsstring) option" where
  \<comment> \<open>a single zero, or a digit from 1 to 9 followed by digits\<close>
  "lex_int s =
     (case s of
        [] \<Rightarrow> None
      | d # r \<Rightarrow> if d = 0x30 then Some ([d], r) else lex_digits s)"

definition lex_frac :: "jsstring \<Rightarrow> (jsstring \<times> jsstring) option" where
  "lex_frac s =
     (case s of
        [] \<Rightarrow> Some ([], s)
      | d # r \<Rightarrow> if d = 0x2E then lex_digits r else Some ([], s))"

definition lex_exp :: "jsstring \<Rightarrow> (int \<times> jsstring) option" where
  "lex_exp s =
     (case s of
        [] \<Rightarrow> Some (0, s)
      | e # r \<Rightarrow>
          if e = 0x65 \<or> e = 0x45 then
            (case r of
               [] \<Rightarrow> None
             | g # r' \<Rightarrow>
                 if g = 0x2D then
                   map_option (\<lambda>(ds, rest). (- int (digitsValue ds), rest)) (lex_digits r')
                 else if g = 0x2B then
                   map_option (\<lambda>(ds, rest). (int (digitsValue ds), rest)) (lex_digits r')
                 else
                   map_option (\<lambda>(ds, rest). (int (digitsValue ds), rest)) (lex_digits r))
          else Some (0, s))"

definition decimalValue :: "bool \<Rightarrow> jsstring \<Rightarrow> jsstring \<Rightarrow> int \<Rightarrow> rat" where
  "decimalValue neg ip fp e =
     (let m = of_nat (digitsValue ip) + of_nat (digitsValue fp) / 10 ^ length fp;
          v = (if 0 \<le> e then m * 10 ^ nat e else m / 10 ^ nat (- e))
      in if neg then - v else v)"

definition lex_unsigned :: "bool \<Rightarrow> jsstring \<Rightarrow> (rat \<times> jsstring) option" where
  "lex_unsigned neg s =
     (case lex_int s of
        None \<Rightarrow> None
      | Some (ip, s1) \<Rightarrow>
          (case lex_frac s1 of
             None \<Rightarrow> None
           | Some (fp, s2) \<Rightarrow>
               (case lex_exp s2 of
                  None \<Rightarrow> None
                | Some (e, s3) \<Rightarrow> Some (decimalValue neg ip fp e, s3))))"

definition lex_number :: "jsstring \<Rightarrow> (rat \<times> jsstring) option" where
  "lex_number s =
     (case s of
        [] \<Rightarrow> None
      | c # r \<Rightarrow> if c = 0x2D then lex_unsigned True r else lex_unsigned False s)"

lemma lex_cons_length:
  "lex_cons c r = Some (s, rest) \<Longrightarrow> \<exists>s'. r = Some (s', rest)"
  by (auto simp: lex_cons_def split: option.splits)

lemma lex_string_length: "lex_string cs = Some (s, rest) \<Longrightarrow> length rest < length cs"
proof (induction cs arbitrary: s rule: lex_string.induct)
  case 1
  then show ?case by simp
next
  case (2 c cs)
  consider (quote) "c = DQUOTE"
    | (escape) "c \<noteq> DQUOTE" "c = BACKSLASH"
    | (plain) "c \<noteq> DQUOTE" "c \<noteq> BACKSLASH"
    by blast
  then show ?case
  proof cases
    case quote
    with "2.prems" show ?thesis by simp
  next
    case escape
    with "2.prems" obtain x r where e: "lex_escape cs = Some (x, r)"
      and l: "lex_cons x (lex_string r) = Some (s, rest)"
      by (auto split: option.splits)
    from l obtain s' where "lex_string r = Some (s', rest)"
      by (auto dest: lex_cons_length)
    with "2.IH"(1) escape e have "length rest < length r" by blast
    with lex_escape_length [OF e] show ?thesis by simp
  next
    case plain
    with "2.prems" have l: "lex_cons c (lex_string cs) = Some (s, rest)" and "\<not> c < 0x20"
      by (auto split: if_splits)
    from l obtain s' where "lex_string cs = Some (s', rest)"
      by (auto dest: lex_cons_length)
    with "2.IH"(2) plain \<open>\<not> c < 0x20\<close> have "length rest < length cs" by blast
    then show ?thesis by simp
  qed
qed

lemma lex_digits_length: "lex_digits s = Some (ds, rest) \<Longrightarrow> length rest < length s"
proof -
  assume a: "lex_digits s = Some (ds, rest)"
  then have ne: "takeWhile isDigit s \<noteq> []" and r: "rest = dropWhile isDigit s"
    by (auto simp: lex_digits_def split: if_splits)
  have "length (takeWhile isDigit s) + length (dropWhile isDigit s) = length s"
    by (metis length_append takeWhile_dropWhile_id)
  with ne r show ?thesis by (cases "takeWhile isDigit s") auto
qed

lemma lex_int_length: "lex_int s = Some (ds, rest) \<Longrightarrow> length rest < length s"
  by (auto simp: lex_int_def split: list.splits if_splits dest: lex_digits_length)

lemma lex_frac_length: "lex_frac s = Some (ds, rest) \<Longrightarrow> length rest \<le> length s"
  by (auto simp: lex_frac_def split: list.splits if_splits dest: lex_digits_length)

lemma lex_exp_length: "lex_exp s = Some (e, rest) \<Longrightarrow> length rest \<le> length s"
  by (auto simp: lex_exp_def split: list.splits if_splits dest: lex_digits_length)

lemma lex_unsigned_length: "lex_unsigned neg s = Some (q, rest) \<Longrightarrow> length rest < length s"
  by (fastforce simp: lex_unsigned_def split: option.splits
        dest: lex_int_length lex_frac_length lex_exp_length)

lemma lex_number_length: "lex_number s = Some (q, rest) \<Longrightarrow> length rest < length s"
  by (auto simp: lex_number_def split: list.splits if_splits dest: lex_unsigned_length)

definition tok :: "token \<Rightarrow> token list option \<Rightarrow> token list option" where
  "tok t r = map_option ((#) t) r"

function tokenize :: "jsstring \<Rightarrow> token list option" where
  "tokenize [] = Some []"
| "tokenize (c # cs) =
     (if c = 0x20 \<or> c = 0x09 \<or> c = 0x0A \<or> c = 0x0D then tokenize cs
      else if c = 0x7B then tok TLBrace (tokenize cs)
      else if c = 0x7D then tok TRBrace (tokenize cs)
      else if c = 0x5B then tok TLBracket (tokenize cs)
      else if c = 0x5D then tok TRBracket (tokenize cs)
      else if c = 0x3A then tok TColon (tokenize cs)
      else if c = 0x2C then tok TComma (tokenize cs)
      else if c = DQUOTE then
        (case lex_string cs of
           None \<Rightarrow> None
         | Some (s, rest) \<Rightarrow> tok (TString s) (tokenize rest))
      else if c = 0x2D \<or> isDigit c then
        (case lex_number (c # cs) of
           None \<Rightarrow> None
         | Some (q, rest) \<Rightarrow> tok (TNumber q) (tokenize rest))
      else if prefix (utf16 ''true'') (c # cs) then tok TTrue (tokenize (drop 3 cs))
      else if prefix (utf16 ''false'') (c # cs) then tok TFalse (tokenize (drop 4 cs))
      else if prefix (utf16 ''null'') (c # cs) then tok TNull (tokenize (drop 3 cs))
      else None)"
  by pat_completeness auto
termination
  by (relation "measure length")
     (auto dest: lex_string_length lex_number_length)

text \<open>
  The parser reads the tokens left to right with a stack of the containers that are
  open. \<open>InMember ms k\<close> is an object whose member \<open>k\<close> awaits its value. A repeated
  key keeps its first position and takes the last value, as in a JavaScript object.
\<close>

datatype frame =
    InArray "json list"
  | InObject "(jsstring \<times> json) list"
  | InMember "(jsstring \<times> json) list" jsstring

datatype expect =
    ExpectValue | ExpectValueOrClose | ExpectKeyOrClose | ExpectKey | ExpectColon
  | ExpectCommaOrClose

datatype parser = Parsing expect "frame list" | Done json | Failed

fun value_done :: "json \<Rightarrow> frame list \<Rightarrow> parser" where
  "value_done v [] = Done v"
| "value_done v (InArray xs # st) = Parsing ExpectCommaOrClose (InArray (xs @ [v]) # st)"
| "value_done v (InMember ms k # st) = Parsing ExpectCommaOrClose (InObject (AList.update k v ms) # st)"
| "value_done v (InObject ms # st) = Failed"

fun begin_value :: "token \<Rightarrow> frame list \<Rightarrow> parser" where
  "begin_value TLBrace st = Parsing ExpectKeyOrClose (InObject [] # st)"
| "begin_value TLBracket st = Parsing ExpectValueOrClose (InArray [] # st)"
| "begin_value (TString s) st = value_done (JString s) st"
| "begin_value (TNumber q) st = value_done (JNumber q) st"
| "begin_value TTrue st = value_done (JBool True) st"
| "begin_value TFalse st = value_done (JBool False) st"
| "begin_value TNull st = value_done JNull st"
| "begin_value _ st = Failed"

fun close_array :: "frame list \<Rightarrow> parser" where
  "close_array (InArray xs # st) = value_done (JArray xs) st"
| "close_array _ = Failed"

fun close_object :: "frame list \<Rightarrow> parser" where
  "close_object (InObject ms # st) = value_done (JObject ms) st"
| "close_object _ = Failed"

fun begin_member :: "jsstring \<Rightarrow> frame list \<Rightarrow> parser" where
  "begin_member k (InObject ms # st) = Parsing ExpectColon (InMember ms k # st)"
| "begin_member k _ = Failed"

fun after_comma :: "frame list \<Rightarrow> parser" where
  "after_comma (InArray xs # st) = Parsing ExpectValue (InArray xs # st)"
| "after_comma (InObject ms # st) = Parsing ExpectKey (InObject ms # st)"
| "after_comma _ = Failed"

fun parse_step :: "parser \<Rightarrow> token \<Rightarrow> parser" where
  "parse_step (Parsing ExpectValue st) t = begin_value t st"
| "parse_step (Parsing ExpectValueOrClose st) t =
     (if t = TRBracket then close_array st else begin_value t st)"
| "parse_step (Parsing ExpectKeyOrClose st) t =
     (case t of TRBrace \<Rightarrow> close_object st | TString k \<Rightarrow> begin_member k st | _ \<Rightarrow> Failed)"
| "parse_step (Parsing ExpectKey st) t =
     (case t of TString k \<Rightarrow> begin_member k st | _ \<Rightarrow> Failed)"
| "parse_step (Parsing ExpectColon st) t =
     (case t of TColon \<Rightarrow> Parsing ExpectValue st | _ \<Rightarrow> Failed)"
| "parse_step (Parsing ExpectCommaOrClose st) t =
     (case t of
        TComma \<Rightarrow> after_comma st
      | TRBracket \<Rightarrow> close_array st
      | TRBrace \<Rightarrow> close_object st
      | _ \<Rightarrow> Failed)"
| "parse_step (Done v) t = Failed"
| "parse_step Failed t = Failed"

definition JSON_parse :: "jsstring \<Rightarrow> js_error + json" where
  "JSON_parse s =
     (case tokenize s of
        None \<Rightarrow> Inl SyntaxError
      | Some ts \<Rightarrow>
          (case foldl parse_step (Parsing ExpectValue []) ts of
             Done v \<Rightarrow> Inr v
           | _ \<Rightarrow> Inl SyntaxError))"

subsection \<open>Reading parsed values\<close>

text \<open>
  A JSON number denotes the double nearest to its decimal value, which the model keeps
  exactly. The class only ever tests a number for truth: it is false when the double is
  zero, that is when the decimal value is at most half the least positive double,
  which is 2 to the power -1074 (the tie rounds to the even neighbour, zero).
\<close>

definition roundsToZero :: "rat \<Rightarrow> bool" where
  "roundsToZero x = (\<bar>x\<bar> \<le> 1 / 2 ^ 1075)"

text \<open>\<^verbatim>\<open>ToBoolean\<close>; \<open>None\<close> is \<^verbatim>\<open>undefined\<close>.\<close>

fun truthy :: "json option \<Rightarrow> bool" where
  "truthy None = False"
| "truthy (Some JNull) = False"
| "truthy (Some (JBool b)) = b"
| "truthy (Some (JNumber x)) = (\<not> roundsToZero x)"
| "truthy (Some (JString s)) = (s \<noteq> [])"
| "truthy (Some (JArray xs)) = True"
| "truthy (Some (JObject ms)) = True"

text \<open>
  The property read \<^verbatim>\<open>v.k\<close> for the names the class reads (\<^verbatim>\<open>setupComplete\<close>,
  \<^verbatim>\<open>serverContent\<close>, \<^verbatim>\<open>modelTurn\<close>, \<^verbatim>\<open>turnComplete\<close>, \<^verbatim>\<open>parts\<close>, \<^verbatim>\<open>text\<close>,
  \<^verbatim>\<open>toolCall\<close>, \<^verbatim>\<open>error\<close>, \<^verbatim>\<open>message\<close>, \<^verbatim>\<open>timestamp\<close>, \<^verbatim>\<open>device_type\<close>,
  \<^verbatim>\<open>condition_score\<close>): none of them is inherited from a prototype, so an object
  answers with its own member and every other value with \<^verbatim>\<open>undefined\<close>. Reading a
  property of \<^verbatim>\<open>null\<close> or \<^verbatim>\<open>undefined\<close> throws.
\<close>

fun getProp :: "json option \<Rightarrow> jsstring \<Rightarrow> js_error + json option" where
  "getProp None k = Inl TypeError"
| "getProp (Some JNull) k = Inl TypeError"
| "getProp (Some (JObject ms)) k = Inr (map_of ms k)"
| "getProp (Some v) k = Inr None"

subsection \<open>The clock\<close>

text \<open>
  \<^verbatim>\<open>new Date()\<close> is the current time, given here by its UTC fields, and
  \<^verbatim>\<open>toISOString\<close> prints it as \<^verbatim>\<open>YYYY-MM-DDTHH:mm:ss.sssZ\<close>, the year with a sign
  and six digits outside 0 to 9999.
\<close>

record utc_time =
  year :: int
  month :: nat
  day :: nat
  hours :: nat
  minutes :: nat
  seconds :: nat
  milliseconds :: nat

definition padded :: "nat \<Rightarrow> nat \<Rightarrow> jsstring" where
  \<comment> \<open>the last \<open>w\<close> decimal digits of \<open>n\<close>\<close>
  "padded w n = map (\<lambda>i. 0x30 + of_nat ((n div 10 ^ i) mod 10)) (rev [0..<w])"

definition yearDigits :: "int \<Rightarrow> jsstring" where
  "yearDigits y =
     (if 0 \<le> y \<and> y \<le> 9999 then padded 4 (nat y)
      else (if y < 0 then utf16 ''-'' else utf16 ''+'') @ padded 6 (nat \<bar>y\<bar>))"

definition toISOString :: "utc_time \<Rightarrow> jsstring" where
  "toISOString d =
     yearDigits (year d) @ utf16 ''-'' @ padded 2 (month d) @ utf16 ''-'' @ padded 2 (day d)
     @ utf16 ''T'' @ padded 2 (hours d) @ utf16 '':'' @ padded 2 (minutes d) @ utf16 '':''
     @ padded 2 (seconds d) @ utf16 ''.'' @ padded 3 (milliseconds d) @ utf16 ''Z''"

subsection \<open>Configuration\<close>

text \<open>
  \<^verbatim>\<open>GeminiLiveConfig\<close> has two optional properties. The constructor builds its
  configuration with an object spread, which copies every own property of its argument,
  also one whose value is \<^verbatim>\<open>undefined\<close>: so a property can be absent, present and
  undefined, or present with a string.
\<close>

datatype 'a optional = Absent | Undefined | Present 'a

record GeminiLiveConfig =
  apiKey :: jsstring
  model :: "jsstring optional"
  systemInstruction :: "jsstring optional"

definition APOSTROPHE :: code_unit where "APOSTROPHE = 0x27"

fun unlines :: "jsstring list \<Rightarrow> jsstring" where
  "unlines [] = []"
| "unlines [l] = l"
| "unlines (l # ls) = l @ NEWLINE # unlines ls"

definition DEVICE_INSPECTION_PROMPT :: jsstring where
  "DEVICE_INSPECTION_PROMPT = unlines
     [utf16 ''You are an expert device quality inspector specializing in mobile phone condition assessment.'',
      utf16 ''Analyze the device shown in the video frame and provide a detailed inspection report.'',
      [],
      utf16 ''For each frame, evaluate:'',
      [],
      utf16 ''1. **Screen Condition**'',
      utf16 ''   - Cracks, chips, or fractures'',
      utf16 ''   - Scratches (light, deep, or gouges)'',
      utf16 ''   - Dead pixels or display anomalies'',
      utf16 ''   - Screen burn-in or discoloration'',
      [],
      utf16 ''2. **Body/Housing Condition**'',
      utf16 ''   - Dents, dings, or deformations'',
      utf16 ''   - Scratches on back panel and frame'',
      utf16 ''   - Paint/coating wear or peeling'',
      utf16 ''   - Corner and edge damage'',
      [],
      utf16 ''3. **Functional Components**'',
      utf16 ''   - Camera lens condition (scratches, cracks, debris)'',
      utf16 ''   - Button condition and alignment'',
      utf16 ''   - Port condition (charging port, headphone jack)'',
      utf16 ''   - Speaker/microphone grille condition'',
      [],
      utf16 ''4. **Overall Assessment**'',
      utf16 ''   - Device model identification (if visible)'',
      utf16 ''   - Estimated condition grade (1-10 scale)'',
      utf16 ''   - Category: Excellent (9-10), Good (7-8), Fair (5-6), Poor (3-4), Damaged (1-2)'',
      [],
      utf16 ''Return your findings as a JSON object with this structure:'',
      utf16 ''{'',
      utf16 ''  '' @ [DQUOTE] @ utf16 ''device_type'' @ [DQUOTE] @ utf16 '': '' @ [DQUOTE] @ utf16 ''string - identified device model or '' @ [APOSTROPHE] @ utf16 ''Unknown'' @ [APOSTROPHE] @ [DQUOTE] @ utf16 '','',
      utf16 ''  '' @ [DQUOTE] @ utf16 ''condition_score'' @ [DQUOTE] @ utf16 '': number (1-10),'',
      utf16 ''  '' @ [DQUOTE] @ utf16 ''overall_condition'' @ [DQUOTE] @ utf16 '': '' @ [DQUOTE] @ utf16 ''Excellent|Good|Fair|Poor|Damaged'' @ [DQUOTE] @ utf16 '','',
      utf16 ''  '' @ [DQUOTE] @ utf16 ''defects'' @ [DQUOTE] @ utf16 '': ['',
      utf16 ''    {'',
      utf16 ''      '' @ [DQUOTE] @ utf16 ''type'' @ [DQUOTE] @ utf16 '': '' @ [DQUOTE] @ utf16 ''Screen Crack|Scratch|Dent|etc.'' @ [DQUOTE] @ utf16 '','',
      utf16 ''      '' @ [DQUOTE] @ utf16 ''location'' @ [DQUOTE] @ utf16 '': '' @ [DQUOTE] @ utf16 ''where on device'' @ [DQUOTE] @ utf16 '','',
      utf16 ''      '' @ [DQUOTE] @ utf16 ''severity'' @ [DQUOTE] @ utf16 '': '' @ [DQUOTE] @ utf16 ''Minor|Moderate|Severe'' @ [DQUOTE] @ utf16 '','',
      utf16 ''      '' @ [DQUOTE] @ utf16 ''description'' @ [DQUOTE] @ utf16 '': '' @ [DQUOTE] @ utf16 ''detailed description'' @ [DQUOTE] @ utf16 '','',
      utf16 ''      '' @ [DQUOTE] @ utf16 ''dimensions_mm'' @ [DQUOTE] @ utf16 '': '' @ [DQUOTE] @ utf16 ''estimated size if applicable'' @ [DQUOTE],
      utf16 ''    }'',
      utf16 ''  ],'',
      utf16 ''  '' @ [DQUOTE] @ utf16 ''recommendations'' @ [DQUOTE] @ utf16 '': ['' @ [DQUOTE] @ utf16 ''array of repair/action recommendations'' @ [DQUOTE] @ utf16 ''],'',
      utf16 ''  '' @ [DQUOTE] @ utf16 ''timestamp'' @ [DQUOTE] @ utf16 '': '' @ [DQUOTE] @ utf16 ''ISO timestamp'' @ [DQUOTE],
      utf16 ''}'',
      [],
      utf16 ''If no device is clearly visible, respond with:'',
      utf16 ''{'',
      utf16 ''  '' @ [DQUOTE] @ utf16 ''device_type'' @ [DQUOTE] @ utf16 '': '' @ [DQUOTE] @ utf16 ''Not Detected'' @ [DQUOTE] @ utf16 '','',
      utf16 ''  '' @ [DQUOTE] @ utf16 ''condition_score'' @ [DQUOTE] @ utf16 '': 0,'',
      utf16 ''  '' @ [DQUOTE] @ utf16 ''overall_condition'' @ [DQUOTE] @ utf16 '': '' @ [DQUOTE] @ utf16 ''Unknown'' @ [DQUOTE] @ utf16 '','',
      utf16 ''  '' @ [DQUOTE] @ utf16 ''defects'' @ [DQUOTE] @ utf16 '': [],'',
      utf16 ''  '' @ [DQUOTE] @ utf16 ''recommendations'' @ [DQUOTE] @ utf16 '': ['' @ [DQUOTE] @ utf16 ''Please position the device clearly in front of the camera'' @ [DQUOTE] @ utf16 ''],'',
      utf16 ''  '' @ [DQUOTE] @ utf16 ''timestamp'' @ [DQUOTE] @ utf16 '': '' @ [DQUOTE] @ utf16 ''ISO timestamp'' @ [DQUOTE],
      utf16 ''}'',
      [],
      utf16 ''Be thorough but concise. Focus on actual visible defects, not speculative issues.'']"

definition spread :: "'a \<Rightarrow> 'a optional \<Rightarrow> 'a option" where
  \<comment> \<open>a default overridden by a spread property; \<open>None\<close> is \<^verbatim>\<open>undefined\<close>\<close>
  "spread d p = (case p of Absent \<Rightarrow> Some d | Undefined \<Rightarrow> None | Present v \<Rightarrow> Some v)"

record stored_config =
  cfg_apiKey :: jsstring
  cfg_model :: "jsstring option"
  cfg_systemInstruction :: "jsstring option"

definition mergeConfig :: "GeminiLiveConfig \<Rightarrow> stored_config" where
  "mergeConfig c =
     \<lparr>cfg_apiKey = apiKey c,
      cfg_model = spread (utf16 ''gemini-2.0-flash-exp'') (model c),
      cfg_systemInstruction = spread DEVICE_INSPECTION_PROMPT (systemInstruction c)\<rparr>"

subsection \<open>The service object and its surroundings\<close>

datatype ConnectionStatus = Disconnected | Connecting | Connected | Error

datatype readyState = CONNECTING | OPEN | CLOSING | CLOSED

text \<open>
  The three handler arrays. A callback is a JavaScript function, known to the class only
  by its identity (\<^verbatim>\<open>h !== handler\<close>): a number here.
\<close>

datatype registry = MessageHandlers | StatusHandlers | DefectHandlers

type_synonym handler = nat

text \<open>
  What a callback is called with. The error branch of \<^verbatim>\<open>handleMessage\<close> calls the
  message handlers with the text
  \<^verbatim>\<open>Error: ${message.error.message || JSON.stringify(message.error)}\<close>;
  \<open>ErrorArg e\<close> stands for that text, for the value \<open>e\<close> of \<^verbatim>\<open>message.error\<close>.
\<close>

datatype argument =
    StatusArg ConnectionStatus
  | TextArg jsstring
  | ErrorArg json
  | ReportArg "(jsstring \<times> json) list"

fun registryOf :: "argument \<Rightarrow> registry" where
  "registryOf (StatusArg s) = StatusHandlers"
| "registryOf (TextArg t) = MessageHandlers"
| "registryOf (ErrorArg e) = MessageHandlers"
| "registryOf (ReportArg r) = DefectHandlers"

text \<open>
  The frames the class sends. \<open>SetupMessage m i\<close> is the setup envelope with model name
  \<open>m\<close> and instruction text \<open>i\<close> (and the fixed generation parameters); the client
  content envelopes are marked \<^verbatim>\<open>turnComplete: true\<close>.
\<close>

datatype outbound =
    SetupMessage jsstring "jsstring option"
  | RealtimeInput jsstring jsstring
  | ClientContentImage jsstring jsstring jsstring
  | ClientContentText jsstring

text \<open>
  The surroundings of an instance: what each callback does when it is called, whether
  the WebSocket constructor rejects the URL built from the API key, and the clock.
  A callback is modelled by the unregister closures it invokes (each the result of an
  earlier \<^verbatim>\<open>onMessage\<close>, \<^verbatim>\<open>onStatusChange\<close> or \<^verbatim>\<open>onDefectReport\<close>), which may
  depend on its argument and on every call made before to the callbacks of the
  instance; it returns normally and calls nothing else of the service.
\<close>

record surroundings =
  callbacks :: "(handler \<times> argument) list \<Rightarrow> handler \<Rightarrow> argument \<Rightarrow> (registry \<times> handler) list"
  urlRejected :: bool
  clock :: utc_time

text \<open>
  The fields of \<^verbatim>\<open>GeminiLiveService\<close> (\<open>ws\<close> is the index of the current socket,
  \<open>None\<close> for \<^verbatim>\<open>null\<close>), followed by what the instance has done to the outside:
  the ready state of every socket it created, the frames it sent and on which socket,
  the delays of the reconnect timers that are pending, every call of a callback, and the
  texts of the Blob frames that \<^verbatim>\<open>onmessage\<close> is still reading.
\<close>

record service =
  ws :: "nat option"
  config :: stored_config
  messageHandlers :: "handler list"
  statusHandlers :: "handler list"
  defectHandlers :: "handler list"
  reconnectAttempts :: nat
  currentStatus :: ConnectionStatus
  accumulatedResponse :: jsstring
  sockets :: "readyState list"
  sent :: "(nat \<times> outbound) list"
  timers :: "nat list"
  calls :: "(handler \<times> argument) list"
  pendingReads :: "jsstring list"
  outside :: surroundings

definition maxReconnectAttempts :: nat where
  \<comment> \<open>a private field initialised to 3 and never assigned\<close>
  "maxReconnectAttempts = 3"

definition newGeminiLiveService :: "surroundings \<Rightarrow> GeminiLiveConfig \<Rightarrow> service" where
  "newGeminiLiveService e c =
     \<lparr>ws = None, config = mergeConfig c, messageHandlers = [], statusHandlers = [],
      defectHandlers = [], reconnectAttempts = 0, currentStatus = Disconnected,
      accumulatedResponse = [], sockets = [], sent = [], timers = [], calls = [],
      pendingReads = [], outside = e\<rparr>"

subsection \<open>Subscriptions and fan-out\<close>

fun handlers :: "registry \<Rightarrow> service \<Rightarrow> handler list" where
  "handlers MessageHandlers w = messageHandlers w"
| "handlers StatusHandlers w = statusHandlers w"
| "handlers DefectHandlers w = defectHandlers w"

definition onMessage :: "handler \<Rightarrow> service \<Rightarrow> service" where
  "onMessage h w = w\<lparr>messageHandlers := messageHandlers w @ [h]\<rparr>"

definition onStatusChange :: "handler \<Rightarrow> service \<Rightarrow> service" where
  "onStatusChange h w = w\<lparr>statusHandlers := statusHandlers w @ [h]\<rparr>"

definition onDefectReport :: "handler \<Rightarrow> service \<Rightarrow> service" where
  "onDefectReport h w = w\<lparr>defectHandlers := defectHandlers w @ [h]\<rparr>"

text \<open>
  The closure that \<^verbatim>\<open>onMessage\<close>, \<^verbatim>\<open>onStatusChange\<close> and \<^verbatim>\<open>onDefectReport\<close> return:
  it assigns a filtered copy to the field and leaves the old array as it is.
\<close>

fun unregister :: "registry \<Rightarrow> handler \<Rightarrow> service \<Rightarrow> service" where
  "unregister MessageHandlers h w =
     w\<lparr>messageHandlers := filter (\<lambda>x. x \<noteq> h) (messageHandlers w)\<rparr>"
| "unregister StatusHandlers h w =
     w\<lparr>statusHandlers := filter (\<lambda>x. x \<noteq> h) (statusHandlers w)\<rparr>"
| "unregister DefectHandlers h w =
     w\<lparr>defectHandlers := filter (\<lambda>x. x \<noteq> h) (defectHandlers w)\<rparr>"

text \<open>One call of a callback: the call is recorded, then the callback runs.\<close>

definition invoke :: "argument \<Rightarrow> service \<Rightarrow> handler \<Rightarrow> service" where
  "invoke a w h =
     foldl (\<lambda>v (r, g). unregister r g v) (w\<lparr>calls := calls w @ [(h, a)]\<rparr>)
       (callbacks (outside w) (calls w) h a)"

text \<open>
  \<^verbatim>\<open>array.forEach((handler) => handler(a))\<close>: the array is the one the field held when
  \<^verbatim>\<open>forEach\<close> was called.
\<close>

definition forEach :: "handler list \<Rightarrow> argument \<Rightarrow> service \<Rightarrow> service" where
  "forEach hs a w = foldl (invoke a) w hs"

definition setStatus :: "ConnectionStatus \<Rightarrow> service \<Rightarrow> service" where
  "setStatus s w =
     (let w1 = w\<lparr>currentStatus := s\<rparr> in forEach (statusHandlers w1) (StatusArg s) w1)"

definition getStatus :: "service \<Rightarrow> ConnectionStatus" where
  "getStatus w = currentStatus w"

subsection \<open>The session transport\<close>

definition socketOpen :: "service \<Rightarrow> bool" where
  \<comment> \<open>\<^verbatim>\<open>this.ws && this.ws.readyState === WebSocket.OPEN\<close>\<close>
  "socketOpen w =
     (case ws w of
        None \<Rightarrow> False
      | Some s \<Rightarrow> s < length (sockets w) \<and> sockets w ! s = OPEN)"

definition wsSend :: "outbound \<Rightarrow> service \<Rightarrow> service" where
  "wsSend m w = (case ws w of None \<Rightarrow> w | Some s \<Rightarrow> w\<lparr>sent := sent w @ [(s, m)]\<rparr>)"

definition modelName :: "jsstring option \<Rightarrow> jsstring" where
  \<comment> \<open>the template \<^verbatim>\<open>models/${this.config.model}\<close>\<close>
  "modelName m = utf16 ''models/'' @ (case m of None \<Rightarrow> utf16 ''undefined'' | Some n \<Rightarrow> n)"

definition sendSetupMessage :: "service \<Rightarrow> service" where
  "sendSetupMessage w =
     (if \<not> socketOpen w then w
      else wsSend (SetupMessage (modelName (cfg_model (config w)))
                     (cfg_systemInstruction (config w))) w)"

definition onopen :: "service \<Rightarrow> service" where
  "onopen w = setStatus Connected (sendSetupMessage (w\<lparr>reconnectAttempts := 0\<rparr>))"

definition onerror :: "service \<Rightarrow> service" where
  "onerror w = setStatus Error w"

text \<open>
  \<^verbatim>\<open>setTimeout(() => this.connect(), 2000 * this.reconnectAttempts)\<close> after the
  increment: the delay, in milliseconds, joins the pending timers.
\<close>

definition onclose :: "service \<Rightarrow> service" where
  "onclose w =
     (let w1 = setStatus Disconnected w in
      if reconnectAttempts w1 < maxReconnectAttempts then
        (let w2 = w1\<lparr>reconnectAttempts := reconnectAttempts w1 + 1\<rparr>
         in w2\<lparr>timers := timers w2 @ [2000 * reconnectAttempts w2]\<rparr>)
      else w1)"

text \<open>
  \<^verbatim>\<open>connect\<close>, up to the point where the new socket has its four handlers; the promise
  it returns settles in \<open>onopen\<close>, \<open>onerror\<close> or the \<^verbatim>\<open>catch\<close>, and is not part of the
  state. A constructor that throws leaves \<open>ws\<close> as it was.
\<close>

definition connect :: "service \<Rightarrow> service" where
  "connect w =
     (if socketOpen w then w
      else
        (let w1 = setStatus Connecting w in
         if urlRejected (outside w1) then setStatus Error w1
         else w1\<lparr>ws := Some (length (sockets w1)), sockets := sockets w1 @ [CONNECTING]\<rparr>))"

text \<open>\<^verbatim>\<open>WebSocket.close\<close> starts the closing handshake of a socket that is not yet closing.\<close>

definition closeSocket :: "nat \<Rightarrow> readyState list \<Rightarrow> readyState list" where
  "closeSocket s rs =
     (if s < length rs \<and> (rs ! s = CONNECTING \<or> rs ! s = OPEN) then rs[s := CLOSING] else rs)"

definition disconnect :: "service \<Rightarrow> service" where
  "disconnect w =
     setStatus Disconnected
       (case ws w of
          None \<Rightarrow> w
        | Some s \<Rightarrow> w\<lparr>sockets := closeSocket s (sockets w), ws := None\<rparr>)"

definition mimeOrDefault :: "jsstring option \<Rightarrow> jsstring" where
  \<comment> \<open>the default parameter \<^verbatim>\<open>mimeType: string = "image/jpeg"\<close>\<close>
  "mimeOrDefault m = (case m of None \<Rightarrow> utf16 ''image/jpeg'' | Some t \<Rightarrow> t)"

definition sendVideoFrame :: "jsstring \<Rightarrow> jsstring option \<Rightarrow> service \<Rightarrow> service" where
  "sendVideoFrame base64ImageData mimeType w =
     (if \<not> socketOpen w then w
      else wsSend (RealtimeInput (mimeOrDefault mimeType) base64ImageData) w)"

definition sendImageWithPrompt ::
  "jsstring \<Rightarrow> jsstring \<Rightarrow> jsstring option \<Rightarrow> service \<Rightarrow> service" where
  "sendImageWithPrompt base64ImageData prompt mimeType w =
     (if \<not> socketOpen w then w
      else wsSend (ClientContentImage (mimeOrDefault mimeType) base64ImageData prompt)
             (w\<lparr>accumulatedResponse := []\<rparr>))"

definition sendTextPrompt :: "jsstring \<Rightarrow> service \<Rightarrow> service" where
  "sendTextPrompt t w =
     (if \<not> socketOpen w then w else wsSend (ClientContentText t) w)"

subsection \<open>The report extractor\<close>

text \<open>
  The cast \<^verbatim>\<open>JSON.parse(jsonMatch[0]) as DefectReport\<close> checks nothing, and the only
  field the method looks at is \<^verbatim>\<open>timestamp\<close>. The candidate starts with a brace, so
  whatever \<^verbatim>\<open>JSON.parse\<close> returns for it is an object (lemma
  \<open>candidate_parses_to_object\<close> below); \<open>stampReport\<close> maps \<^verbatim>\<open>null\<close> and the primitives,
  which cannot arise, to the \<^verbatim>\<open>TypeError\<close> that reading or assigning a property of one
  of them raises in a module. An array cannot arise either; it is given the same result,
  although JavaScript would set the property on it.
\<close>

definition stampReport :: "utc_time \<Rightarrow> json \<Rightarrow> js_error + (jsstring \<times> json) list" where
  "stampReport now report =
     (case report of
        JObject ms \<Rightarrow>
          Inr (if \<not> truthy (map_of ms (utf16 ''timestamp''))
               then AList.update (utf16 ''timestamp'') (JString (toISOString now)) ms
               else ms)
      | _ \<Rightarrow> Inl TypeError)"

text \<open>
  The body of the \<^verbatim>\<open>try\<close> block of \<^verbatim>\<open>parseDefectReport\<close>: the state it leaves, and
  the exception it ends with if any (\<^verbatim>\<open>console.log\<close> has no part in the state).
\<close>

definition parseDefectReport_try :: "jsstring \<Rightarrow> service \<Rightarrow> js_error option \<times> service" where
  "parseDefectReport_try t w =
     (case jsonCandidate t of
        None \<Rightarrow> (None, w)
      | Some candidate \<Rightarrow>
          (case JSON_parse candidate of
             Inl e \<Rightarrow> (Some e, w)
           | Inr parsed \<Rightarrow>
               (case stampReport (clock (outside w)) parsed of
                  Inl e \<Rightarrow> (Some e, w)
                | Inr report \<Rightarrow> (None, forEach (defectHandlers w) (ReportArg report) w))))"

text \<open>The \<^verbatim>\<open>catch\<close> clause only logs.\<close>

definition parseDefectReport :: "jsstring \<Rightarrow> service \<Rightarrow> service" where
  "parseDefectReport t w = snd (parseDefectReport_try t w)"

subsection \<open>The turn accumulator\<close>

text \<open>
  The loop over \<^verbatim>\<open>modelTurn.parts\<close>. A part whose \<^verbatim>\<open>text\<close> is truthy and not a string
  ends the loop with the \<^verbatim>\<open>TypeError\<close> of \<^verbatim>\<open>part.text.substring\<close>, before anything
  is appended.
\<close>

fun partsLoop :: "json list \<Rightarrow> service \<Rightarrow> js_error option \<times> service" where
  "partsLoop [] w = (None, w)"
| "partsLoop (part # ps) w =
     (case getProp (Some part) (utf16 ''text'') of
        Inl e \<Rightarrow> (Some e, w)
      | Inr t \<Rightarrow>
          if truthy t then
            (case t of
               Some (JString s) \<Rightarrow>
                 (let w1 = w\<lparr>accumulatedResponse := accumulatedResponse w @ s\<rparr>
                  in partsLoop ps (forEach (messageHandlers w1) (TextArg s) w1))
             | _ \<Rightarrow> (Some TypeError, w))
          else partsLoop ps w)"

text \<open>
  \<^verbatim>\<open>if (modelTurn?.parts) { for (const part of modelTurn.parts) ... }\<close>. The elements
  of a string are strings, which have no \<^verbatim>\<open>text\<close>; a number, \<^verbatim>\<open>true\<close> or an object
  is not iterable.
\<close>

definition optionalParts :: "json option \<Rightarrow> json option" where
  "optionalParts modelTurn =
     (case modelTurn of
        None \<Rightarrow> None
      | Some JNull \<Rightarrow> None
      | Some (JObject ms) \<Rightarrow> map_of ms (utf16 ''parts'')
      | Some v \<Rightarrow> None)"

definition forParts :: "json option \<Rightarrow> service \<Rightarrow> js_error option \<times> service" where
  "forParts parts w =
     (if \<not> truthy parts then (None, w)
      else
        (case parts of
           Some (JArray ps) \<Rightarrow> partsLoop ps w
         | Some (JString s) \<Rightarrow> (None, w)
         | _ \<Rightarrow> (Some TypeError, w)))"

definition handleServerContent :: "json option \<Rightarrow> service \<Rightarrow> js_error option \<times> service" where
  "handleServerContent serverContent w =
     (case getProp serverContent (utf16 ''modelTurn'') of
        Inl e \<Rightarrow> (Some e, w)
      | Inr modelTurn \<Rightarrow>
          (case getProp serverContent (utf16 ''turnComplete'') of
             Inl e \<Rightarrow> (Some e, w)
           | Inr turnComplete \<Rightarrow>
               (case forParts (optionalParts modelTurn) w of
                  (Some e, w1) \<Rightarrow> (Some e, w1)
                | (None, w1) \<Rightarrow>
                    if truthy turnComplete then
                      (None, (parseDefectReport (accumulatedResponse w1) w1)
                               \<lparr>accumulatedResponse := []\<rparr>)
                    else (None, w1))))"

text \<open>
  The error branch builds its text inside the callback of \<^verbatim>\<open>forEach\<close>, so with no
  message handler nothing is evaluated. The template literal converts a truthy
  \<^verbatim>\<open>message.error.message\<close> to a string: an object that has a member named
  \<^verbatim>\<open>toString\<close> cannot be converted (the member is not callable, and \<^verbatim>\<open>valueOf\<close>
  returns the object itself), and an array converts each of its elements other than
  \<^verbatim>\<open>null\<close>. \<^verbatim>\<open>JSON.stringify\<close> of a parsed value does not throw.
\<close>

fun toStringThrows :: "json \<Rightarrow> bool" where
  "toStringThrows (JObject ms) = (map_of ms (utf16 ''toString'') \<noteq> None)"
| "toStringThrows (JArray xs) = list_ex toStringThrows xs"
| "toStringThrows v = False"

definition handleError :: "json option \<Rightarrow> service \<Rightarrow> js_error option \<times> service" where
  "handleError err w =
     (case err of
        None \<Rightarrow> (None, w)
      | Some e \<Rightarrow>
          if \<not> truthy err then (None, w)
          else
            (case getProp err (utf16 ''message'') of
               Inl x \<Rightarrow> (Some x, w)
             | Inr m \<Rightarrow>
                 if messageHandlers w \<noteq> [] \<and> truthy m
                    \<and> (case m of None \<Rightarrow> False | Some v \<Rightarrow> toStringThrows v)
                 then (Some TypeError, w)
                 else (None, forEach (messageHandlers w) (ErrorArg e) w)))"

text \<open>
  The body of the \<^verbatim>\<open>try\<close> block of \<^verbatim>\<open>handleMessage\<close> after \<^verbatim>\<open>JSON.parse(data)\<close>
  has returned \<open>message\<close>; the \<^verbatim>\<open>toolCall\<close> branch only logs.
\<close>

definition handleParsed :: "json \<Rightarrow> service \<Rightarrow> js_error option \<times> service" where
  "handleParsed message w =
     (case getProp (Some message) (utf16 ''setupComplete'') of
        Inl e \<Rightarrow> (Some e, w)
      | Inr setupComplete \<Rightarrow>
          if truthy setupComplete then (None, w)
          else
            (case getProp (Some message) (utf16 ''serverContent'') of
               Inl e \<Rightarrow> (Some e, w)
             | Inr serverContent \<Rightarrow>
                 (case (if truthy serverContent then handleServerContent serverContent w
                        else (None, w)) of
                    (Some e, w1) \<Rightarrow> (Some e, w1)
                  | (None, w1) \<Rightarrow>
                      (case getProp (Some message) (utf16 ''error'') of
                         Inl e \<Rightarrow> (Some e, w1)
                       | Inr err \<Rightarrow> handleError err w1))))"

definition handleMessage_try :: "jsstring \<Rightarrow> service \<Rightarrow> js_error option \<times> service" where
  "handleMessage_try data w =
     (case JSON_parse data of
        Inl e \<Rightarrow> (Some e, w)
      | Inr message \<Rightarrow> handleParsed message w)"

text \<open>The \<^verbatim>\<open>catch\<close> clause only logs: the state is the one the exception left.\<close>

definition handleMessage :: "jsstring \<Rightarrow> service \<Rightarrow> service" where
  "handleMessage data w = snd (handleMessage_try data w)"

subsection \<open>Events\<close>

text \<open>
  The \<^verbatim>\<open>onmessage\<close> handler is an \<^verbatim>\<open>async\<close> function. A frame that arrives as a
  string is handed to \<^verbatim>\<open>handleMessage\<close> at once, inside the message event. For a frame
  that arrives as a Blob the handler awaits \<^verbatim>\<open>event.data.text()\<close> first: the text
  joins the pending reads, and \<^verbatim>\<open>handleMessage\<close> runs in a later turn of the event
  loop, when the read has completed, after whatever happened to the instance in between.
  The reads complete in no fixed order.
\<close>

datatype frame_data = StringFrame jsstring | BlobFrame jsstring

definition removeAt :: "nat \<Rightarrow> 'a list \<Rightarrow> 'a list" where
  "removeAt i xs = take i xs @ drop (Suc i) xs"

definition onmessage :: "frame_data \<Rightarrow> service \<Rightarrow> service" where
  "onmessage d w =
     (case d of
        StringFrame t \<Rightarrow> handleMessage t w
      | BlobFrame t \<Rightarrow> w\<lparr>pendingReads := pendingReads w @ [t]\<rparr>)"

definition onBlobRead :: "nat \<Rightarrow> service \<Rightarrow> service" where
  \<comment> \<open>the continuation of \<^verbatim>\<open>onmessage\<close> after the \<^verbatim>\<open>await\<close>, for the pending read \<open>i\<close>\<close>
  "onBlobRead i w =
     (if i < length (pendingReads w)
      then handleMessage (pendingReads w ! i) (w\<lparr>pendingReads := removeAt i (pendingReads w)\<rparr>)
      else w)"

text \<open>
  Everything that can happen to an instance: a call of one of its methods, a call of an
  unregister closure, one of the four socket events, the end of the read of a Blob
  frame, a reconnect timer that fires, and the clock moving on. \<open>step\<close> runs the
  handler of the event.
\<close>

datatype event =
    CallConnect
  | CallDisconnect
  | CallSendVideoFrame jsstring "jsstring option"
  | CallSendImageWithPrompt jsstring jsstring "jsstring option"
  | CallSendTextPrompt jsstring
  | CallOnMessage handler
  | CallOnStatusChange handler
  | CallOnDefectReport handler
  | CallUnregister registry handler
  | SocketOpened nat
  | SocketMessage frame_data
  | BlobRead nat
  | SocketErrored nat
  | SocketClosed nat
  | TimerFired nat
  | ClockMoved utc_time

fun step :: "service \<Rightarrow> event \<Rightarrow> service" where
  "step w CallConnect = connect w"
| "step w CallDisconnect = disconnect w"
| "step w (CallSendVideoFrame d m) = sendVideoFrame d m w"
| "step w (CallSendImageWithPrompt d p m) = sendImageWithPrompt d p m w"
| "step w (CallSendTextPrompt t) = sendTextPrompt t w"
| "step w (CallOnMessage h) = onMessage h w"
| "step w (CallOnStatusChange h) = onStatusChange h w"
| "step w (CallOnDefectReport h) = onDefectReport h w"
| "step w (CallUnregister r h) = unregister r h w"
| "step w (SocketOpened s) = onopen (w\<lparr>sockets := (sockets w)[s := OPEN]\<rparr>)"
| "step w (SocketMessage d) = onmessage d w"
| "step w (BlobRead i) = onBlobRead i w"
| "step w (SocketErrored s) = onerror w"
| "step w (SocketClosed s) = onclose (w\<lparr>sockets := (sockets w)[s := CLOSED]\<rparr>)"
| "step w (TimerFired i) = connect (w\<lparr>timers := removeAt i (timers w)\<rparr>)"
| "step w (ClockMoved t) = w\<lparr>outside := (outside w)\<lparr>clock := t\<rparr>\<rparr>"

definition run :: "service \<Rightarrow> event list \<Rightarrow> service" where
  "run w es = foldl step w es"

text \<open>
  What the browser can deliver in a state: a socket opens once, while it is connecting;
  a frame arrives on a socket that is open or closing; a socket closes once; only a pending read ends and
  only a pending timer fires.
\<close>

fun possible :: "service \<Rightarrow> event \<Rightarrow> bool" where
  "possible w (SocketOpened s) = (s < length (sockets w) \<and> sockets w ! s = CONNECTING)"
| "possible w (SocketMessage d) = (OPEN \<in> set (sockets w) \<or> CLOSING \<in> set (sockets w))"
| "possible w (BlobRead i) = (i < length (pendingReads w))"
| "possible w (SocketErrored s) = (s < length (sockets w) \<and> sockets w ! s \<noteq> CLOSED)"
| "possible w (SocketClosed s) = (s < length (sockets w) \<and> sockets w ! s \<noteq> CLOSED)"
| "possible w (TimerFired i) = (i < length (timers w))"
| "possible w e = True"

fun feasible :: "service \<Rightarrow> event list \<Rightarrow> bool" where
  "feasible w [] = True"
| "feasible w (e # es) = (possible w e \<and> feasible (step w e) es)"

subsection \<open>The singleton\<close>

text \<open>
  The module variable \<^verbatim>\<open>serviceInstance\<close> refers to an object: the objects live in a
  heap, and the variable holds an address or \<^verbatim>\<open>null\<close>.
\<close>

record module_state =
  heap :: "service list"
  serviceInstance :: "nat option"

definition getGeminiLiveService ::
  "surroundings \<Rightarrow> GeminiLiveConfig \<Rightarrow> module_state \<Rightarrow> nat \<times> module_state" where
  "getGeminiLiveService e c m =
     (case serviceInstance m of
        None \<Rightarrow>
          (length (heap m),
           m\<lparr>heap := heap m @ [newGeminiLiveService e c],
             serviceInstance := Some (length (heap m))\<rparr>)
      | Some a \<Rightarrow> (a, m))"

definition resetGeminiLiveService :: "module_state \<Rightarrow> module_state" where
  "resetGeminiLiveService m =
     (case serviceInstance m of
        None \<Rightarrow> m
      | Some a \<Rightarrow> m\<lparr>heap := (heap m)[a := disconnect (heap m ! a)], serviceInstance := None\<rparr>)"

section \<open>Notions used in the statements\<close>

subsection \<open>Fan-out\<close>

text \<open>
  \<open>dropAll R\<close> removes from each handler array the callbacks that the set \<open>R\<close> of
  unregistrations names; \<open>removed e cs hs a\<close> is the set of unregistrations that the
  callbacks \<open>hs\<close> perform when they are called with \<open>a\<close>, one after the other, after
  the calls \<open>cs\<close>.
\<close>

definition dropAll :: "(registry \<times> handler) set \<Rightarrow> service \<Rightarrow> service" where
  "dropAll R w =
     w\<lparr>messageHandlers := filter (\<lambda>x. (MessageHandlers, x) \<notin> R) (messageHandlers w),
       statusHandlers := filter (\<lambda>x. (StatusHandlers, x) \<notin> R) (statusHandlers w),
       defectHandlers := filter (\<lambda>x. (DefectHandlers, x) \<notin> R) (defectHandlers w)\<rparr>"

fun removed ::
  "surroundings \<Rightarrow> (handler \<times> argument) list \<Rightarrow> handler list \<Rightarrow> argument
     \<Rightarrow> (registry \<times> handler) set" where
  "removed e cs [] a = {}"
| "removed e cs (h # hs) a = set (callbacks e cs h a) \<union> removed e (cs @ [(h, a)]) hs a"

text \<open>
  \<open>received r h w\<close>: the calls made so far to callback \<open>h\<close> as a member of the
  handler array \<open>r\<close>. \<open>registers r h e\<close>: the event subscribes \<open>h\<close> to \<open>r\<close>.
  \<open>silent r h w w'\<close>: if \<open>h\<close> is not subscribed to \<open>r\<close> in \<open>w\<close>, it is not in \<open>w'\<close>
  either and has received nothing in between.
\<close>

definition received :: "registry \<Rightarrow> handler \<Rightarrow> service \<Rightarrow> (handler \<times> argument) list" where
  "received r h w = filter (\<lambda>(g, a). g = h \<and> registryOf a = r) (calls w)"

fun registers :: "registry \<Rightarrow> handler \<Rightarrow> event \<Rightarrow> bool" where
  "registers MessageHandlers h (CallOnMessage g) = (g = h)"
| "registers StatusHandlers h (CallOnStatusChange g) = (g = h)"
| "registers DefectHandlers h (CallOnDefectReport g) = (g = h)"
| "registers r h e = False"

definition silent :: "registry \<Rightarrow> handler \<Rightarrow> service \<Rightarrow> service \<Rightarrow> bool" where
  "silent r h w w' =
     (h \<in> set (handlers r w) \<or> (h \<notin> set (handlers r w') \<and> received r h w' = received r h w))"

subsection \<open>Transport and module\<close>

text \<open>
  \<open>sameTransport w w'\<close>: the two states differ at most in the turn buffer, the handler
  arrays and the record of callback calls. \<open>isOpened\<close> and \<open>isClosed\<close> single out the
  open and close events of a socket.
\<close>

definition sameTransport :: "service \<Rightarrow> service \<Rightarrow> bool" where
  "sameTransport w w' =
     (ws w' = ws w \<and> config w' = config w \<and> reconnectAttempts w' = reconnectAttempts w
      \<and> currentStatus w' = currentStatus w \<and> sockets w' = sockets w \<and> sent w' = sent w
      \<and> timers w' = timers w \<and> pendingReads w' = pendingReads w \<and> outside w' = outside w)"

fun isOpened :: "event \<Rightarrow> bool" where
  "isOpened (SocketOpened s) = True"
| "isOpened e = False"

fun isClosed :: "event \<Rightarrow> bool" where
  "isClosed (SocketClosed s) = True"
| "isClosed e = False"

text \<open>
  A client calling methods of the object at address \<open>a\<close>, and the browser delivering
  events to it.
\<close>

definition useInstance :: "nat \<Rightarrow> event list \<Rightarrow> module_state \<Rightarrow> module_state" where
  "useInstance a es m = m\<lparr>heap := (heap m)[a := run (heap m ! a) es]\<rparr>"

subsection \<open>Frames in the order they are handled\<close>




subsection \<open>Parsed values\<close>

text \<open>
  \<open>objectOpen p\<close>: the parser is inside a value whose outermost container is an object,
  or has finished with an object.
\<close>

fun bottomObject :: "frame list \<Rightarrow> bool" where
  "bottomObject [] = False"
| "bottomObject [InArray xs] = False"
| "bottomObject [f] = True"
| "bottomObject (f # g # st) = bottomObject (g # st)"

fun objectOpen :: "parser \<Rightarrow> bool" where
  "objectOpen (Parsing e st) = bottomObject st"
| "objectOpen (Done (JObject ms)) = True"
| "objectOpen (Done v) = False"
| "objectOpen Failed = True"

text \<open>The report that \<^verbatim>\<open>parseDefectReport\<close> emits for a parsed object with members \<open>ms\<close>.\<close>

definition withTimestamp :: "utc_time \<Rightarrow> (jsstring \<times> json) list \<Rightarrow> (jsstring \<times> json) list" where
  "withTimestamp now ms =
     (if truthy (map_of ms (utf16 ''timestamp'')) then ms
      else AList.update (utf16 ''timestamp'') (JString (toISOString now)) ms)"



subsection \<open>Concrete inputs\<close>

text \<open>
  The surroundings, instances, event sequences and texts at which the statements below
  are instantiated.
\<close>

definition quoted :: "string \<Rightarrow> jsstring" where
  \<comment> \<open>a JSON string literal without escapes\<close>
  "quoted s = DQUOTE # utf16 s @ [DQUOTE]"

definition fence :: jsstring where
  "fence = [BACKTICK, BACKTICK, BACKTICK]"

definition exampleSurroundings :: surroundings where
  \<comment> \<open>callbacks that unregister nothing, at noon on 3 November 2026\<close>
  "exampleSurroundings =
     \<lparr>callbacks = (\<lambda>cs h a. []), urlRejected = False,
      clock = \<lparr>year = 2026, month = 11, day = 3, hours = 12, minutes = 0, seconds = 0,
               milliseconds = 0\<rparr>\<rparr>"

definition removingSurroundings :: surroundings where
  \<comment> \<open>callback 1 unregisters status callback 2 whenever it is called\<close>
  "removingSurroundings =
     exampleSurroundings
       \<lparr>callbacks := (\<lambda>cs h a. if h = 1 then [(StatusHandlers, 2)] else [])\<rparr>"

definition exampleConfig :: GeminiLiveConfig where
  "exampleConfig = \<lparr>apiKey = utf16 ''key'', model = Absent, systemInstruction = Absent\<rparr>"

definition otherConfig :: GeminiLiveConfig where
  "otherConfig =
     \<lparr>apiKey = utf16 ''other key'', model = Present (utf16 ''gemini-pro''),
      systemInstruction = Present (utf16 ''Describe the picture.'')\<rparr>"

definition exampleService :: service where
  "exampleService = newGeminiLiveService exampleSurroundings exampleConfig"

definition twoListeners :: service where
  "twoListeners =
     onStatusChange 2 (onStatusChange 1 (newGeminiLiveService removingSurroundings exampleConfig))"

definition reportListener :: service where
  "reportListener = onDefectReport 5 exampleService"

definition emptyModule :: module_state where
  "emptyModule = \<lparr>heap = [], serviceInstance = None\<rparr>"

definition textFrameOf :: "string \<Rightarrow> jsstring" where
  \<comment> \<open>a server content frame with one text part and no turn-complete flag\<close>
  "textFrameOf s =
     utf16 ''{'' @ quoted ''serverContent'' @ utf16 '':{'' @ quoted ''modelTurn'' @ utf16 '':{''
     @ quoted ''parts'' @ utf16 '':[{'' @ quoted ''text'' @ utf16 '':'' @ quoted s
     @ utf16 ''}]}}}''"



definition failingConnection :: "event list" where
  \<comment> \<open>a connection attempt and its three retries, each closed before it opens\<close>
  "failingConnection =
     [CallConnect, SocketClosed 0, TimerFired 0, SocketClosed 1, TimerFired 0, SocketClosed 2,
      TimerFired 0]"

definition staleTurn :: "event list" where
  \<comment> \<open>a connection on which one fragment arrives and the turn never completes\<close>
  "staleTurn =
     [CallConnect, SocketOpened 0, SocketMessage (StringFrame (textFrameOf ''stale''))]"

definition explicitDisconnect :: "event list" where
  \<comment> \<open>a successful connection, a call of \<^verbatim>\<open>disconnect\<close>, and the close event of the socket\<close>
  "explicitDisconnect = [CallConnect, SocketOpened 0, CallDisconnect, SocketClosed 0]"




definition reopeningConnection :: "event list" where
  \<comment> \<open>a connection and its three retries, each opened and then closed by the other side\<close>
  "reopeningConnection =
     [CallConnect, SocketOpened 0, SocketClosed 0, TimerFired 0, SocketOpened 1, SocketClosed 1,
      TimerFired 0, SocketOpened 2, SocketClosed 2, TimerFired 0, SocketOpened 3]"

definition commaAfterObjectTurn :: jsstring where
  \<comment> \<open>a fenced block whose content is an object followed by a comma\<close>
  "commaAfterObjectTurn =
     fence @ utf16 ''json'' @ [NEWLINE] @ utf16 ''{'' @ quoted ''device_type'' @ utf16 '':''
     @ quoted ''iPhone 12'' @ utf16 ''},'' @ [NEWLINE] @ fence"

definition exampleReportText :: jsstring where
  "exampleReportText =
     utf16 ''{'' @ quoted ''device_type'' @ utf16 '':'' @ quoted ''iPhone 12'' @ utf16 '',''
     @ quoted ''condition_score'' @ utf16 '':8,'' @ quoted ''overall_condition'' @ utf16 '':''
     @ quoted ''Good'' @ utf16 '','' @ quoted ''defects'' @ utf16 '':[],''
     @ quoted ''recommendations'' @ utf16 '':[],'' @ quoted ''timestamp'' @ utf16 '':''
     @ quoted [] @ utf16 ''}''"

definition exampleTurn :: jsstring where
  \<comment> \<open>the report in a fenced block tagged \<^verbatim>\<open>json\<close>\<close>
  "exampleTurn = fence @ utf16 ''json'' @ [NEWLINE] @ exampleReportText @ [NEWLINE] @ fence"

definition trailingCommaTurn :: jsstring where
  "trailingCommaTurn =
     fence @ utf16 ''json'' @ [NEWLINE] @ utf16 ''{'' @ quoted ''device_type'' @ utf16 '':''
     @ quoted ''iPhone 12'' @ utf16 '',}'' @ [NEWLINE] @ fence"

definition noDeviceTurn :: jsstring where
  "noDeviceTurn = utf16 ''Sorry, I can't see a device.''"

definition oddReportText :: jsstring where
  \<comment> \<open>an object that is no Defect Report: a score of 42 and nothing else\<close>
  "oddReportText = utf16 ''{'' @ quoted ''condition_score'' @ utf16 '':42}''"

section \<open>Properties\<close>

subsection \<open>Fan-out, exactly\<close>

lemma dropAll_empty: "dropAll {} w = w"
  by (simp add: dropAll_def)

lemma dropAll_dropAll: "dropAll A (dropAll B w) = dropAll (A \<union> B) w"
  by (simp add: dropAll_def conj_commute)

lemma unregister_dropAll: "unregister r g w = dropAll {(r, g)} w"
  by (cases r) (simp_all add: dropAll_def)

lemma dropAll_fields:
  "calls (dropAll R w) = calls w" "outside (dropAll R w) = outside w"
  "ws (dropAll R w) = ws w" "config (dropAll R w) = config w"
  "reconnectAttempts (dropAll R w) = reconnectAttempts w"
  "currentStatus (dropAll R w) = currentStatus w"
  "accumulatedResponse (dropAll R w) = accumulatedResponse w"
  "sockets (dropAll R w) = sockets w" "sent (dropAll R w) = sent w"
  "timers (dropAll R w) = timers w" "pendingReads (dropAll R w) = pendingReads w"
  by (simp_all add: dropAll_def)

lemma dropAll_handlers:
  "handlers r (dropAll R w) = filter (\<lambda>x. (r, x) \<notin> R) (handlers r w)"
  by (cases r) (simp_all add: dropAll_def)

lemma unregisters_dropAll:
  "foldl (\<lambda>v (r, g). unregister r g v) w rs = dropAll (set rs) w"
proof (induction rs arbitrary: w)
  case Nil
  show ?case by (simp add: dropAll_empty)
next
  case (Cons x rs)
  obtain r g where x: "x = (r, g)" by (cases x)
  have "foldl (\<lambda>v (r, g). unregister r g v) w (x # rs)
      = foldl (\<lambda>v (r, g). unregister r g v) (unregister r g w) rs"
    by (simp add: x)
  also have "\<dots> = dropAll (set rs) (unregister r g w)"
    by (rule Cons.IH)
  also have "\<dots> = dropAll (set (x # rs)) w"
    by (simp add: x unregister_dropAll dropAll_dropAll)
  finally show ?case .
qed

lemma dropAll_calls_update:
  "dropAll R (w\<lparr>calls := c\<rparr>) = (dropAll R w)\<lparr>calls := c\<rparr>"
  by (simp add: dropAll_def)

lemma invoke_dropAll:
  "invoke a w h =
     dropAll (set (callbacks (outside w) (calls w) h a)) (w\<lparr>calls := calls w @ [(h, a)]\<rparr>)"
  by (simp add: invoke_def unregisters_dropAll)

lemma forEach_dropAll:
  "forEach hs a w =
     dropAll (removed (outside w) (calls w) hs a)
       (w\<lparr>calls := calls w @ map (\<lambda>h. (h, a)) hs\<rparr>)"
proof (induction hs arbitrary: w)
  case Nil
  show ?case by (simp add: forEach_def dropAll_empty)
next
  case (Cons h hs)
  let ?v = "invoke a w h"
  have v: "outside ?v = outside w" "calls ?v = calls w @ [(h, a)]"
    by (simp_all add: invoke_dropAll dropAll_fields)
  have "forEach (h # hs) a w = forEach hs a ?v"
    by (simp add: forEach_def)
  also have "\<dots> = dropAll (removed (outside ?v) (calls ?v) hs a)
      (?v\<lparr>calls := calls ?v @ map (\<lambda>h. (h, a)) hs\<rparr>)"
    by (rule Cons.IH)
  also have "\<dots> = dropAll (removed (outside w) (calls w) (h # hs) a)
      (w\<lparr>calls := calls w @ map (\<lambda>h. (h, a)) (h # hs)\<rparr>)"
    unfolding v
    by (simp add: invoke_dropAll dropAll_calls_update dropAll_dropAll Un_ac)
  finally show ?case .
qed

lemma setStatus_dropAll:
  "setStatus s w =
     dropAll (removed (outside w) (calls w) (statusHandlers w) (StatusArg s))
       (w\<lparr>currentStatus := s,
          calls := calls w @ map (\<lambda>h. (h, StatusArg s)) (statusHandlers w)\<rparr>)"
  by (simp add: setStatus_def forEach_dropAll)

lemma setStatus_fields:
  "currentStatus (setStatus s w) = s"
  "calls (setStatus s w) = calls w @ map (\<lambda>h. (h, StatusArg s)) (statusHandlers w)"
  "outside (setStatus s w) = outside w"
  "ws (setStatus s w) = ws w" "config (setStatus s w) = config w"
  "reconnectAttempts (setStatus s w) = reconnectAttempts w"
  "accumulatedResponse (setStatus s w) = accumulatedResponse w"
  "sockets (setStatus s w) = sockets w" "sent (setStatus s w) = sent w"
  "timers (setStatus s w) = timers w" "pendingReads (setStatus s w) = pendingReads w"
  by (simp_all add: setStatus_dropAll dropAll_fields)

lemma forEach_fields:
  "currentStatus (forEach hs a w) = currentStatus w"
  "calls (forEach hs a w) = calls w @ map (\<lambda>h. (h, a)) hs"
  "outside (forEach hs a w) = outside w"
  "ws (forEach hs a w) = ws w" "config (forEach hs a w) = config w"
  "reconnectAttempts (forEach hs a w) = reconnectAttempts w"
  "accumulatedResponse (forEach hs a w) = accumulatedResponse w"
  "sockets (forEach hs a w) = sockets w" "sent (forEach hs a w) = sent w"
  "timers (forEach hs a w) = timers w" "pendingReads (forEach hs a w) = pendingReads w"
  by (simp_all add: forEach_dropAll dropAll_fields)

subsection \<open>What message handling leaves alone\<close>

lemma sameTransport_refl: "sameTransport w w"
  by (simp add: sameTransport_def)

lemma sameTransport_trans:
  "sameTransport w w1 \<Longrightarrow> sameTransport w1 w2 \<Longrightarrow> sameTransport w w2"
  by (simp add: sameTransport_def)

lemma sameTransport_forEach: "sameTransport w (forEach hs a w)"
  by (simp add: sameTransport_def forEach_fields)

lemma sameTransport_buffer: "sameTransport w (w\<lparr>accumulatedResponse := b\<rparr>)"
  by (simp add: sameTransport_def)

lemma sameTransport_partsLoop: "sameTransport w (snd (partsLoop ps w))"
proof (induction ps arbitrary: w)
  case Nil
  show ?case by (simp add: sameTransport_refl)
next
  case (Cons p ps)
  show ?case
  proof (cases "\<exists>s. getProp (Some p) (utf16 ''text'') = Inr (Some (JString s)) \<and> s \<noteq> []")
    case True
    then obtain s where s: "getProp (Some p) (utf16 ''text'') = Inr (Some (JString s))" "s \<noteq> []"
      by blast
    let ?w1 = "w\<lparr>accumulatedResponse := accumulatedResponse w @ s\<rparr>"
    let ?w2 = "forEach (messageHandlers ?w1) (TextArg s) ?w1"
    have "sameTransport w ?w2"
      by (rule sameTransport_trans [OF sameTransport_buffer sameTransport_forEach])
    moreover have "sameTransport ?w2 (snd (partsLoop ps ?w2))" by (rule Cons.IH)
    moreover have "partsLoop (p # ps) w = partsLoop ps ?w2" using s by (simp add: Let_def)
    ultimately show ?thesis by (simp add: sameTransport_trans)
  next
    case False
    then show ?thesis
      by (auto simp: sameTransport_refl Cons.IH split: sum.splits option.splits json.splits)
  qed
qed

lemma sameTransport_parseDefectReport: "sameTransport w (parseDefectReport t w)"
  by (auto simp: parseDefectReport_def parseDefectReport_try_def sameTransport_refl
      sameTransport_forEach split: option.splits sum.splits)

lemma sameTransport_forParts: "forParts parts w = (e, w') \<Longrightarrow> sameTransport w w'"
  using sameTransport_partsLoop [of w]
  by (auto simp: forParts_def sameTransport_refl split: option.splits json.splits if_splits)
     (metis snd_conv)

lemma sameTransport_handleServerContent:
  "handleServerContent c w = (e, w') \<Longrightarrow> sameTransport w w'"
proof -
  have *: "sameTransport w ((parseDefectReport t w1)\<lparr>accumulatedResponse := []\<rparr>)"
    if "sameTransport w w1" for t w1
    using that sameTransport_parseDefectReport [of w1 t]
    by (simp add: sameTransport_def)
  assume "handleServerContent c w = (e, w')"
  then show ?thesis
    by (auto simp: handleServerContent_def sameTransport_refl *
        split: sum.splits option.splits prod.splits if_splits dest: sameTransport_forParts)
qed

lemma sameTransport_handleError: "handleError err w = (e, w') \<Longrightarrow> sameTransport w w'"
  by (auto simp: handleError_def sameTransport_refl sameTransport_forEach
      split: option.splits sum.splits if_splits)

lemma sameTransport_handleParsed: "handleParsed m w = (e, w') \<Longrightarrow> sameTransport w w'"
proof -
  have *: "sameTransport w w2"
    if "sameTransport w w1" "handleError err w1 = (e, w2)" for err w1 w2 e
    using that sameTransport_handleError by (blast intro: sameTransport_trans)
  assume "handleParsed m w = (e, w')"
  then show ?thesis
    by (auto simp: handleParsed_def sameTransport_refl
        split: sum.splits option.splits prod.splits if_splits
        dest: sameTransport_handleServerContent sameTransport_handleError
        intro: * [OF sameTransport_refl] * [OF sameTransport_handleServerContent])
qed

lemma sameTransport_handleMessage: "sameTransport w (handleMessage data w)"
  by (cases "handleMessage_try data w")
     (auto simp: handleMessage_def handleMessage_try_def sameTransport_refl
      split: sum.splits dest: sameTransport_handleParsed)

subsection \<open>The reconnect counter\<close>

lemma socketOpen_frame:
  "ws w' = ws w \<Longrightarrow> sockets w' = sockets w \<Longrightarrow> socketOpen w' = socketOpen w"
  by (simp add: socketOpen_def split: option.splits)

lemma wsSend_fields:
  "reconnectAttempts (wsSend m w) = reconnectAttempts w" "timers (wsSend m w) = timers w"
  "currentStatus (wsSend m w) = currentStatus w" "config (wsSend m w) = config w"
  "accumulatedResponse (wsSend m w) = accumulatedResponse w"
  "sockets (wsSend m w) = sockets w" "ws (wsSend m w) = ws w"
  "calls (wsSend m w) = calls w" "outside (wsSend m w) = outside w"
  "handlers r (wsSend m w) = handlers r w"
  by (cases r; simp add: wsSend_def split: option.splits)+

lemma connect_counter:
  "reconnectAttempts (connect w) = reconnectAttempts w" "timers (connect w) = timers w"
  by (simp_all add: connect_def Let_def setStatus_fields)

lemma disconnect_counter:
  "reconnectAttempts (disconnect w) = reconnectAttempts w" "timers (disconnect w) = timers w"
  "currentStatus (disconnect w) = Disconnected" "ws (disconnect w) = None"
  by (simp_all add: disconnect_def setStatus_fields split: option.splits)

lemma onopen_counter:
  "reconnectAttempts (onopen w) = 0" "timers (onopen w) = timers w"
  by (simp_all add: onopen_def sendSetupMessage_def setStatus_fields wsSend_fields)

lemma onerror_counter:
  "reconnectAttempts (onerror w) = reconnectAttempts w" "timers (onerror w) = timers w"
  by (simp_all add: onerror_def setStatus_fields)

lemma onclose_counter:
  "reconnectAttempts (onclose w) =
     (if reconnectAttempts w < maxReconnectAttempts then reconnectAttempts w + 1
      else reconnectAttempts w)"
  "timers (onclose w) =
     (if reconnectAttempts w < maxReconnectAttempts
      then timers w @ [2000 * (reconnectAttempts w + 1)] else timers w)"
  "currentStatus (onclose w) = Disconnected"
  by (simp_all add: onclose_def Let_def setStatus_fields)

lemma send_counter:
  "reconnectAttempts (sendVideoFrame d m w) = reconnectAttempts w"
  "reconnectAttempts (sendImageWithPrompt d p m w) = reconnectAttempts w"
  "reconnectAttempts (sendTextPrompt t w) = reconnectAttempts w"
  by (simp_all add: sendVideoFrame_def sendImageWithPrompt_def sendTextPrompt_def wsSend_fields)

lemma register_counter:
  "reconnectAttempts (onMessage h w) = reconnectAttempts w"
  "reconnectAttempts (onStatusChange h w) = reconnectAttempts w"
  "reconnectAttempts (onDefectReport h w) = reconnectAttempts w"
  "reconnectAttempts (unregister r h w) = reconnectAttempts w"
  by (simp_all add: onMessage_def onStatusChange_def onDefectReport_def unregister_dropAll
      dropAll_fields)

lemma handleMessage_counter: "reconnectAttempts (handleMessage data w) = reconnectAttempts w"
  using sameTransport_handleMessage [of w data] by (simp add: sameTransport_def)

lemma onmessage_counter:
  "reconnectAttempts (onmessage d w) = reconnectAttempts w"
  "reconnectAttempts (onBlobRead i w) = reconnectAttempts w"
  by (simp_all add: onmessage_def onBlobRead_def handleMessage_counter split: frame_data.splits)

lemma step_counter:
  "reconnectAttempts (step w e) =
     (if isOpened e then 0
      else if isClosed e \<and> reconnectAttempts w < maxReconnectAttempts
      then reconnectAttempts w + 1 else reconnectAttempts w)"
  by (cases e)
     (simp_all add: connect_counter disconnect_counter onopen_counter onerror_counter
       onclose_counter send_counter register_counter onmessage_counter)

lemma run_snoc: "run w (es @ [e]) = step (run w es) e"
  by (simp add: run_def)

lemma run_counter_no_open:
  "\<not> list_ex isOpened es \<Longrightarrow> reconnectAttempts w \<le> maxReconnectAttempts \<Longrightarrow>
   reconnectAttempts (run w es) =
     min maxReconnectAttempts (reconnectAttempts w + length (filter isClosed es))"
proof (induction es rule: rev_induct)
  case Nil
  then show ?case by (simp add: run_def)
next
  case (snoc e es)
  then show ?case
    by (auto simp: run_snoc step_counter maxReconnectAttempts_def)
qed

lemma run_counter_no_close:
  "\<not> list_ex isClosed es \<Longrightarrow> reconnectAttempts w = 0 \<Longrightarrow> reconnectAttempts (run w es) = 0"
proof (induction es rule: rev_induct)
  case Nil
  then show ?case by (simp add: run_def)
next
  case (snoc e es)
  then show ?case
    by (auto simp: run_snoc step_counter)
qed

lemma run_counter_bound:
  "reconnectAttempts w \<le> maxReconnectAttempts \<Longrightarrow>
   reconnectAttempts (run w es) \<le> maxReconnectAttempts"
proof (induction es rule: rev_induct)
  case Nil
  then show ?case by (simp add: run_def)
next
  case (snoc e es)
  then show ?case
    by (auto simp: run_snoc step_counter)
qed

text \<open>
  C4, as the code has it. A closure that finds the attempt counter below 3 increments it
  and schedules a reconnect after 2000 ms times the new attempt number, with the status
  disconnected. The counter of an instance never exceeds 3. Once three closures have
  happened with no opening of a socket among the events, calls of \<^verbatim>\<open>disconnect\<close> or
  not, a further closure schedules nothing: the pending timers are unchanged, the counter
  stays at 3 and the status is disconnected. An opening in between sets the counter
  back to 0, and then the closure is retried.
\<close>

theorem reconnect_policy:
  "(reconnectAttempts w < maxReconnectAttempts \<longrightarrow>
      timers (step w (SocketClosed s)) = timers w @ [2000 * (reconnectAttempts w + 1)]
      \<and> reconnectAttempts (step w (SocketClosed s)) = reconnectAttempts w + 1
      \<and> currentStatus (step w (SocketClosed s)) = Disconnected)
   \<and> reconnectAttempts (run (newGeminiLiveService env cfg) es') \<le> maxReconnectAttempts
   \<and> (reconnectAttempts w \<le> maxReconnectAttempts \<and> \<not> list_ex isOpened es
        \<and> 3 \<le> length (filter isClosed es) \<longrightarrow>
      timers (step (run w es) (SocketClosed s)) = timers (run w es)
      \<and> reconnectAttempts (step (run w es) (SocketClosed s)) = 3
      \<and> currentStatus (step (run w es) (SocketClosed s)) = Disconnected)"
proof (intro conjI impI)
  assume "reconnectAttempts w < maxReconnectAttempts"
  then show "timers (step w (SocketClosed s)) = timers w @ [2000 * (reconnectAttempts w + 1)]"
    by (simp add: onclose_counter)
next
  assume "reconnectAttempts w < maxReconnectAttempts"
  then show "reconnectAttempts (step w (SocketClosed s)) = reconnectAttempts w + 1"
    by (simp add: onclose_counter)
next
  show "currentStatus (step w (SocketClosed s)) = Disconnected"
    by (simp add: onclose_counter)
next
  show "reconnectAttempts (run (newGeminiLiveService env cfg) es') \<le> maxReconnectAttempts"
    by (rule run_counter_bound) (simp add: newGeminiLiveService_def)
next
  assume a: "reconnectAttempts w \<le> maxReconnectAttempts \<and> \<not> list_ex isOpened es
        \<and> 3 \<le> length (filter isClosed es)"
  then have three: "reconnectAttempts (run w es) = 3"
    using run_counter_no_open [of es w] by (simp add: maxReconnectAttempts_def)
  show "timers (step (run w es) (SocketClosed s)) = timers (run w es)"
    using three by (simp add: onclose_counter maxReconnectAttempts_def)
  show "reconnectAttempts (step (run w es) (SocketClosed s)) = 3"
    using three by (simp add: onclose_counter maxReconnectAttempts_def)
  show "currentStatus (step (run w es) (SocketClosed s)) = Disconnected"
    by (simp add: onclose_counter)
qed

theorem reconnect_policy_witness:
  "feasible exampleService (failingConnection @ [SocketClosed 3])
   \<and> reconnectAttempts exampleService < maxReconnectAttempts
   \<and> timers (step exampleService (SocketClosed 0)) = [2000]
   \<and> reconnectAttempts exampleService \<le> maxReconnectAttempts
   \<and> \<not> list_ex isOpened failingConnection
   \<and> 3 \<le> length (filter isClosed failingConnection)
   \<and> timers (step (run exampleService failingConnection) (SocketClosed 3))
       = timers (run exampleService failingConnection)
   \<and> currentStatus (step (run exampleService failingConnection) (SocketClosed 3)) = Disconnected"
proof -
  have f: "feasible exampleService (failingConnection @ [SocketClosed 3])"
    by (simp add: exampleService_def failingConnection_def exampleSurroundings_def
        newGeminiLiveService_def forEach_def setStatus_def socketOpen_def onclose_def
        connect_def removeAt_def maxReconnectAttempts_def Let_def)
  have h1: "reconnectAttempts exampleService < maxReconnectAttempts"
    by (simp add: exampleService_def newGeminiLiveService_def maxReconnectAttempts_def)
  have h2: "reconnectAttempts exampleService \<le> maxReconnectAttempts
      \<and> \<not> list_ex isOpened failingConnection
      \<and> 3 \<le> length (filter isClosed failingConnection)"
    by (simp add: exampleService_def newGeminiLiveService_def failingConnection_def)
  have t: "timers exampleService = []"
    by (simp add: exampleService_def newGeminiLiveService_def)
  have h0: "reconnectAttempts exampleService = 0"
    by (simp add: exampleService_def newGeminiLiveService_def)
  have c1: "timers (step exampleService (SocketClosed 0))
      = timers exampleService @ [2000 * (reconnectAttempts exampleService + 1)]"
    using h1 reconnect_policy [where w = exampleService and s = 0] by blast
  have c2: "timers (step (run exampleService failingConnection) (SocketClosed 3))
       = timers (run exampleService failingConnection)
     \<and> currentStatus (step (run exampleService failingConnection) (SocketClosed 3)) = Disconnected"
    using h2 reconnect_policy [where w = exampleService and s = 3 and es = failingConnection]
    by blast
  have "timers (step exampleService (SocketClosed 0)) = [2000]"
    unfolding c1 by (simp add: h0 t)
  with f h1 h2 c2 show ?thesis
    by blast
qed

text \<open>The definitions that evaluating a concrete run unfolds.\<close>

lemmas service_defs =
  newGeminiLiveService_def onMessage_def onStatusChange_def onDefectReport_def
  invoke_def forEach_def setStatus_def socketOpen_def wsSend_def sendSetupMessage_def
  onopen_def onerror_def onclose_def connect_def closeSocket_def disconnect_def
  sendVideoFrame_def sendImageWithPrompt_def sendTextPrompt_def run_def removeAt_def
  onmessage_def onBlobRead_def maxReconnectAttempts_def Let_def

lemma run_reopeningConnection:
  "feasible exampleService (reopeningConnection @ [SocketClosed 3])"
  "timers (run exampleService reopeningConnection) = []"
  "reconnectAttempts (run exampleService reopeningConnection) = 0"
  "sockets (run exampleService reopeningConnection) = [CLOSED, CLOSED, CLOSED, OPEN]"
  by (simp_all add: reopeningConnection_def exampleService_def exampleSurroundings_def
      service_defs)

theorem reopened_connection_retries_again:
  "feasible exampleService (reopeningConnection @ [SocketClosed 3])
   \<and> CallDisconnect \<notin> set reopeningConnection
   \<and> length (filter isClosed reopeningConnection) = 3
   \<and> reconnectAttempts exampleService = 0
   \<and> timers (run exampleService reopeningConnection) = []
   \<and> timers (step (run exampleService reopeningConnection) (SocketClosed 3)) = [2000]
   \<and> reconnectAttempts (step (run exampleService reopeningConnection) (SocketClosed 3)) = 1"
proof -
  have "CallDisconnect \<notin> set reopeningConnection"
    "length (filter isClosed reopeningConnection) = 3"
    by (simp_all add: reopeningConnection_def)
  moreover have "reconnectAttempts exampleService = 0"
    by (simp add: exampleService_def newGeminiLiveService_def)
  moreover have "timers (step (run exampleService reopeningConnection) (SocketClosed 3)) = [2000]"
    "reconnectAttempts (step (run exampleService reopeningConnection) (SocketClosed 3)) = 1"
    by (simp_all add: onclose_counter run_reopeningConnection maxReconnectAttempts_def)
  ultimately show ?thesis
    using run_reopeningConnection(1,2) by simp
qed

text \<open>
  C5. The \<^verbatim>\<open>onopen\<close> handler sets the attempt counter to 0, and the next closure,
  whatever else happens in between, schedules retry number 1, after 2000 ms.
\<close>

theorem open_resets_counter:
  "reconnectAttempts (step w (SocketOpened s)) = 0
   \<and> (\<not> list_ex isClosed es \<longrightarrow>
        reconnectAttempts (step (run (step w (SocketOpened s)) es) (SocketClosed s')) = 1
        \<and> timers (step (run (step w (SocketOpened s)) es) (SocketClosed s'))
            = timers (run (step w (SocketOpened s)) es) @ [2000])"
proof (intro conjI impI)
  show z: "reconnectAttempts (step w (SocketOpened s)) = 0"
    by (simp add: onopen_counter)
  assume n: "\<not> list_ex isClosed es"
  have zero: "reconnectAttempts (run (step w (SocketOpened s)) es) = 0"
    by (rule run_counter_no_close [OF n z])
  show "reconnectAttempts (step (run (step w (SocketOpened s)) es) (SocketClosed s')) = 1"
    using zero by (simp add: onclose_counter maxReconnectAttempts_def)
  show "timers (step (run (step w (SocketOpened s)) es) (SocketClosed s'))
            = timers (run (step w (SocketOpened s)) es) @ [2000]"
    using zero by (simp add: onclose_counter maxReconnectAttempts_def)
qed

theorem open_resets_counter_witness:
  "\<not> list_ex isClosed [CallSendTextPrompt (utf16 ''hello'')]
   \<and> reconnectAttempts (step (run exampleService failingConnection) (SocketOpened 3)) = 0
   \<and> reconnectAttempts
        (step (run (step (run exampleService failingConnection) (SocketOpened 3))
                 [CallSendTextPrompt (utf16 ''hello'')]) (SocketClosed 3)) = 1"
  using open_resets_counter [of "run exampleService failingConnection" 3
      "[CallSendTextPrompt (utf16 ''hello'')]" 3]
  by simp

subsection \<open>Unsubscribed callbacks are not called\<close>

lemma silent_refl: "silent r h w w"
  by (simp add: silent_def)

lemma silent_trans: "silent r h w w1 \<Longrightarrow> silent r h w1 w2 \<Longrightarrow> silent r h w w2"
  by (auto simp: silent_def)

lemma silent_same:
  "handlers r w' = handlers r w \<Longrightarrow> calls w' = calls w \<Longrightarrow> silent r h w w'"
  by (simp add: silent_def received_def)

lemma received_append:
  "calls w' = calls w @ cs \<Longrightarrow>
   received r h w' = received r h w @ filter (\<lambda>(g, a). g = h \<and> registryOf a = r) cs"
  by (simp add: received_def)

lemma handlers_update_simps:
  "handlers r (w\<lparr>currentStatus := s\<rparr>) = handlers r w"
  "handlers r (w\<lparr>accumulatedResponse := b\<rparr>) = handlers r w"
  "handlers r (w\<lparr>reconnectAttempts := n\<rparr>) = handlers r w"
  "handlers r (w\<lparr>timers := ts\<rparr>) = handlers r w"
  "handlers r (w\<lparr>sockets := ss\<rparr>) = handlers r w"
  "handlers r (w\<lparr>ws := x\<rparr>) = handlers r w"
  "handlers r (w\<lparr>sent := y\<rparr>) = handlers r w"
  "handlers r (w\<lparr>outside := e\<rparr>) = handlers r w"
  "handlers r (w\<lparr>pendingReads := ps\<rparr>) = handlers r w"
  "handlers r (w\<lparr>calls := c\<rparr>) = handlers r w"
  by (cases r; simp)+

lemma silent_forEach:
  assumes "set hs \<subseteq> set (handlers (registryOf a) w)"
  shows "silent r h w (forEach hs a w)"
proof (cases "h \<in> set (handlers r w)")
  case True
  then show ?thesis by (simp add: silent_def)
next
  case False
  have "filter (\<lambda>(g, b). g = h \<and> registryOf b = r) (map (\<lambda>g. (g, a)) hs) = []"
    using assms False by (auto simp: filter_empty_conv)
  then have "received r h (forEach hs a w) = received r h w"
    using received_append [of "forEach hs a w" w "map (\<lambda>g. (g, a)) hs" r h]
    by (simp add: forEach_fields)
  moreover have "h \<notin> set (handlers r (forEach hs a w))"
    using False by (simp add: forEach_dropAll dropAll_handlers handlers_update_simps)
  ultimately show ?thesis by (simp add: silent_def)
qed

lemma silent_setStatus: "silent r h w (setStatus s w)"
proof -
  let ?w1 = "w\<lparr>currentStatus := s\<rparr>"
  have "silent r h ?w1 (forEach (statusHandlers ?w1) (StatusArg s) ?w1)"
    by (rule silent_forEach) simp
  moreover have "silent r h w ?w1"
    by (rule silent_same) (simp_all add: handlers_update_simps)
  ultimately show ?thesis
    by (simp add: setStatus_def silent_trans)
qed

lemma silent_update:
  "silent r h w (w\<lparr>accumulatedResponse := b\<rparr>)"
  "silent r h w (w\<lparr>reconnectAttempts := n\<rparr>)"
  "silent r h w (w\<lparr>timers := ts\<rparr>)"
  "silent r h w (w\<lparr>sockets := ss\<rparr>)"
  "silent r h w (w\<lparr>ws := x\<rparr>)"
  "silent r h w (w\<lparr>sent := y\<rparr>)"
  "silent r h w (w\<lparr>outside := e\<rparr>)"
  "silent r h w (w\<lparr>pendingReads := ps\<rparr>)"
  by (rule silent_same; simp add: handlers_update_simps)+

lemma silent_then:
  "silent r h w w1 \<Longrightarrow> (\<And>v. silent r h v (f v)) \<Longrightarrow> silent r h w (f w1)"
  by (blast intro: silent_trans)

lemma silent_partsLoop: "partsLoop ps w = (e, w') \<Longrightarrow> silent r h w w'"
proof (induction ps arbitrary: w)
  case Nil
  then show ?case by (simp add: silent_refl)
next
  case (Cons p ps)
  show ?case
  proof (cases "\<exists>s. getProp (Some p) (utf16 ''text'') = Inr (Some (JString s)) \<and> s \<noteq> []")
    case True
    then obtain s where s: "getProp (Some p) (utf16 ''text'') = Inr (Some (JString s))" "s \<noteq> []"
      by blast
    let ?w1 = "w\<lparr>accumulatedResponse := accumulatedResponse w @ s\<rparr>"
    let ?w2 = "forEach (messageHandlers ?w1) (TextArg s) ?w1"
    have "silent r h ?w1 ?w2" by (rule silent_forEach) simp
    then have a: "silent r h w ?w2"
      by (rule silent_trans [OF silent_update(1)])
    have "partsLoop (p # ps) w = partsLoop ps ?w2" using s by (simp add: Let_def)
    with Cons.prems have "partsLoop ps ?w2 = (e, w')" by simp
    then have "silent r h ?w2 w'" by (rule Cons.IH)
    with a show ?thesis by (rule silent_trans)
  next
    case False
    with Cons.prems show ?thesis
      by (auto simp: silent_refl split: sum.splits option.splits json.splits if_splits
          intro: Cons.IH)
  qed
qed

lemma silent_parseDefectReport: "silent r h w (parseDefectReport t w)"
proof -
  have "silent r h w (forEach (defectHandlers w) (ReportArg x) w)" for x
    by (rule silent_forEach) simp
  then show ?thesis
    by (auto simp: parseDefectReport_def parseDefectReport_try_def silent_refl
        split: option.splits sum.splits)
qed

lemma silent_forParts: "forParts parts w = (e, w') \<Longrightarrow> silent r h w w'"
  by (auto simp: forParts_def silent_refl split: option.splits json.splits if_splits
      dest: silent_partsLoop)

lemma silent_handleServerContent: "handleServerContent c w = (e, w') \<Longrightarrow> silent r h w w'"
proof -
  have *: "silent r h w ((parseDefectReport t w1)\<lparr>accumulatedResponse := []\<rparr>)"
    if "silent r h w w1" for t w1
    using that silent_parseDefectReport [of r h w1 t]
      silent_update(1) [of r h "parseDefectReport t w1" "[]"]
    by (blast intro: silent_trans)
  assume "handleServerContent c w = (e, w')"
  then show ?thesis
    by (auto simp: handleServerContent_def silent_refl
        split: sum.splits option.splits prod.splits if_splits intro: silent_forParts *)
qed

lemma silent_handleError: "handleError err w = (e, w') \<Longrightarrow> silent r h w w'"
proof -
  have "silent r h w (forEach (messageHandlers w) (ErrorArg x) w)" for x
    by (rule silent_forEach) simp
  moreover assume "handleError err w = (e, w')"
  ultimately show ?thesis
    by (auto simp: handleError_def silent_refl split: option.splits sum.splits if_splits)
qed

lemma silent_handleParsed: "handleParsed m w = (e, w') \<Longrightarrow> silent r h w w'"
proof -
  have *: "silent r h w w2"
    if "silent r h w w1" "handleError err w1 = (e, w2)" for err w1 w2 e
    using that silent_handleError by (blast intro: silent_trans)
  assume "handleParsed m w = (e, w')"
  then show ?thesis
    by (auto simp: handleParsed_def silent_refl
        split: sum.splits option.splits prod.splits if_splits
        intro: silent_handleServerContent * [OF silent_refl] * [OF silent_handleServerContent])
qed

lemma silent_handleMessage: "silent r h w (handleMessage data w)"
  by (cases "handleMessage_try data w")
     (auto simp: handleMessage_def handleMessage_try_def silent_refl
      split: sum.splits intro: silent_handleParsed)

lemma silent_wsSend: "silent r h w (wsSend m w)"
  by (simp add: wsSend_def silent_refl silent_update split: option.splits)

lemma silent_connect: "silent r h w (connect w)"
proof -
  have a: "silent r h w (setStatus Connecting w)" by (rule silent_setStatus)
  have b: "silent r h w (setStatus Error (setStatus Connecting w))"
    by (rule silent_trans [OF a silent_setStatus])
  have c: "silent r h w ((setStatus Connecting w)\<lparr>ws := x, sockets := y\<rparr>)" for x y
    by (rule silent_trans [OF a]) (rule silent_same; simp add: handlers_update_simps)
  show ?thesis
    by (simp add: connect_def Let_def silent_refl b c)
qed

lemma silent_disconnect: "silent r h w (disconnect w)"
proof -
  have "silent r h w (setStatus Disconnected (w\<lparr>sockets := y, ws := None\<rparr>))" for y
    by (rule silent_trans [OF _ silent_setStatus])
       (rule silent_same; simp add: handlers_update_simps)
  then show ?thesis
    by (simp add: disconnect_def silent_setStatus split: option.splits)
qed

lemma silent_sendSetupMessage: "silent r h w (sendSetupMessage w)"
  by (simp add: sendSetupMessage_def silent_refl silent_wsSend)

lemma silent_onopen: "silent r h w (onopen w)"
  unfolding onopen_def
  by (rule silent_trans [OF silent_update(2) silent_trans [OF silent_sendSetupMessage silent_setStatus]])

lemma silent_onerror: "silent r h w (onerror w)"
  by (simp add: onerror_def silent_setStatus)

lemma silent_onclose: "silent r h w (onclose w)"
proof -
  have "silent r h w ((setStatus Disconnected w)\<lparr>reconnectAttempts := n, timers := ts\<rparr>)" for n ts
    by (rule silent_trans [OF silent_setStatus])
       (rule silent_same; simp add: handlers_update_simps)
  then show ?thesis
    by (simp add: onclose_def Let_def silent_setStatus)
qed

lemma silent_send:
  "silent r h w (sendVideoFrame d m w)"
  "silent r h w (sendImageWithPrompt d p m w)"
  "silent r h w (sendTextPrompt t w)"
  by (auto simp: sendVideoFrame_def sendImageWithPrompt_def sendTextPrompt_def silent_refl
      silent_wsSend intro: silent_trans [OF silent_update(1) silent_wsSend])

lemma silent_unregister: "silent r h w (unregister r' g w)"
  by (simp add: silent_def received_def unregister_dropAll dropAll_handlers dropAll_fields)

lemma silent_register:
  "\<not> registers r h (CallOnMessage g) \<Longrightarrow> silent r h w (onMessage g w)"
  "\<not> registers r h (CallOnStatusChange g) \<Longrightarrow> silent r h w (onStatusChange g w)"
  "\<not> registers r h (CallOnDefectReport g) \<Longrightarrow> silent r h w (onDefectReport g w)"
  by (cases r; simp add: silent_def received_def onMessage_def onStatusChange_def
      onDefectReport_def)+

lemma silent_onmessage:
  "silent r h w (onmessage d w)" "silent r h w (onBlobRead i w)"
  using silent_trans [OF silent_update(8) silent_handleMessage]
  by (simp_all add: onmessage_def onBlobRead_def silent_refl silent_handleMessage silent_update
      split: frame_data.splits)

lemma silent_step: "\<not> registers r h e \<Longrightarrow> silent r h w (step w e)"
proof (cases e)
  case (SocketOpened s)
  then show ?thesis
    using silent_trans [OF silent_update(4) silent_onopen] by simp
next
  case (SocketClosed s)
  then show ?thesis
    using silent_trans [OF silent_update(4) silent_onclose] by simp
next
  case (TimerFired i)
  then show ?thesis
    using silent_trans [OF silent_update(3) silent_connect] by simp
qed (simp_all add: silent_connect silent_disconnect silent_send silent_register
      silent_unregister silent_onmessage silent_onerror silent_update)

lemma silent_run: "\<not> list_ex (registers r h) es \<Longrightarrow> silent r h w (run w es)"
proof (induction es rule: rev_induct)
  case Nil
  show ?case by (simp add: run_def silent_refl)
next
  case (snoc e es)
  then have "silent r h w (run w es)" and "silent r h (run w es) (step (run w es) e)"
    by (simp_all add: silent_step)
  then show ?case by (simp add: run_snoc silent_trans)
qed

text \<open>
  C9. Once the unregister closure of a subscription has run, its callback is called with
  no further event of that kind, whatever happens to the instance afterwards (short of
  subscribing the same callback again). A fan-out pass calls every callback of the array
  it started with, once and in order, whatever the callbacks unregister during the pass;
  the unregistrations show in the array after the pass. Running the closure a second
  time changes nothing.
\<close>

theorem unregister_capability:
  "(\<not> list_ex (registers r h) es \<longrightarrow>
      received r h (run (unregister r h w) es) = received r h w)
   \<and> calls (forEach hs a w) = calls w @ map (\<lambda>g. (g, a)) hs
   \<and> handlers r (forEach hs a w)
       = filter (\<lambda>g. (r, g) \<notin> removed (outside w) (calls w) hs a) (handlers r w)
   \<and> calls (setStatus s w) = calls w @ map (\<lambda>g. (g, StatusArg s)) (statusHandlers w)
   \<and> unregister r h (unregister r h w) = unregister r h w"
proof (intro conjI impI)
  assume n: "\<not> list_ex (registers r h) es"
  have "h \<notin> set (handlers r (unregister r h w))"
    by (simp add: unregister_dropAll dropAll_handlers)
  with silent_run [OF n, of "unregister r h w"]
  have "received r h (run (unregister r h w) es) = received r h (unregister r h w)"
    by (simp add: silent_def)
  also have "\<dots> = received r h w"
    by (simp add: received_def unregister_dropAll dropAll_fields)
  finally show "received r h (run (unregister r h w) es) = received r h w" .
next
  show "calls (forEach hs a w) = calls w @ map (\<lambda>g. (g, a)) hs"
    by (simp add: forEach_fields)
next
  show "handlers r (forEach hs a w)
       = filter (\<lambda>g. (r, g) \<notin> removed (outside w) (calls w) hs a) (handlers r w)"
    by (simp add: forEach_dropAll dropAll_handlers handlers_update_simps)
next
  show "calls (setStatus s w) = calls w @ map (\<lambda>g. (g, StatusArg s)) (statusHandlers w)"
    by (simp add: setStatus_fields)
next
  show "unregister r h (unregister r h w) = unregister r h w"
    by (simp add: unregister_dropAll dropAll_dropAll)
qed

theorem unregister_capability_witness:
  "\<not> list_ex (registers StatusHandlers 2) [CallConnect, SocketOpened 0]
   \<and> received StatusHandlers 2
        (run (unregister StatusHandlers 2 twoListeners) [CallConnect, SocketOpened 0]) = []
   \<and> calls (run (unregister StatusHandlers 2 twoListeners) [CallConnect, SocketOpened 0])
       = [(1, StatusArg Connecting), (1, StatusArg Connected)]
   \<and> calls (setStatus Connecting twoListeners)
       = [(1, StatusArg Connecting), (2, StatusArg Connecting)]
   \<and> statusHandlers (setStatus Connecting twoListeners) = [1]"
proof -
  have n: "\<not> list_ex (registers StatusHandlers 2) [CallConnect, SocketOpened 0]"
    by simp
  have "calls twoListeners = []"
    by (simp add: twoListeners_def onStatusChange_def newGeminiLiveService_def)
  then have r: "received StatusHandlers 2 twoListeners = []"
    by (simp add: received_def)
  have t: "received StatusHandlers 2
        (run (unregister StatusHandlers 2 twoListeners) [CallConnect, SocketOpened 0])
      = received StatusHandlers 2 twoListeners"
    using unregister_capability [of StatusHandlers 2 "[CallConnect, SocketOpened 0]"
        twoListeners "[]" "StatusArg Connecting" Connecting] n
    by blast
  have a: "calls (run (unregister StatusHandlers 2 twoListeners) [CallConnect, SocketOpened 0])
       = [(1, StatusArg Connecting), (1, StatusArg Connected)]"
    by (simp add: twoListeners_def removingSurroundings_def exampleSurroundings_def service_defs)
  have b: "calls (setStatus Connecting twoListeners)
       = [(1, StatusArg Connecting), (2, StatusArg Connecting)]"
    by (simp add: twoListeners_def removingSurroundings_def exampleSurroundings_def service_defs)
  have c: "statusHandlers (setStatus Connecting twoListeners) = [1]"
    by (simp add: twoListeners_def removingSurroundings_def exampleSurroundings_def service_defs)
  from n t [unfolded r] a b c show ?thesis
    by blast
qed

subsection \<open>A new request and the turn buffer\<close>

lemmas message_defs =
  handleMessage_def handleMessage_try_def handleParsed_def handleServerContent_def
  handleError_def forParts_def optionalParts_def parseDefectReport_def
  parseDefectReport_try_def stampReport_def

lemma parse_textFrameOf_stale:
  "JSON_parse (textFrameOf ''stale'') =
     Inr (JObject [(utf16 ''serverContent'', JObject [(utf16 ''modelTurn'',
       JObject [(utf16 ''parts'',
         JArray [JObject [(utf16 ''text'', JString (utf16 ''stale''))]])])])])"
  by code_simp

lemma run_staleTurn:
  "feasible exampleService staleTurn"
  "accumulatedResponse (run exampleService staleTurn) = utf16 ''stale''"
  "ws (run exampleService staleTurn) = Some 0"
  "sockets (run exampleService staleTurn) = [OPEN]"
  by (simp_all add: staleTurn_def exampleService_def exampleSurroundings_def service_defs
      message_defs parse_textFrameOf_stale utf16_def)

lemma sendImageWithPrompt_clears_buffer:
  "socketOpen w \<Longrightarrow> accumulatedResponse (sendImageWithPrompt d p m w) = []"
  by (simp add: sendImageWithPrompt_def wsSend_fields)

lemma sendTextPrompt_keeps_buffer:
  "accumulatedResponse (sendTextPrompt t w) = accumulatedResponse w"
  by (simp add: sendTextPrompt_def wsSend_fields)

text \<open>
  C3. On an open socket \<^verbatim>\<open>sendImageWithPrompt\<close> empties the turn buffer, and
  \<^verbatim>\<open>sendTextPrompt\<close> leaves it as it is: after a fragment of a turn that never
  completes, \<^verbatim>\<open>sendTextPrompt\<close> sends its request and the buffer still holds the
  fragment.
\<close>

theorem sendTextPrompt_stale_buffer:
  "feasible exampleService staleTurn
   \<and> socketOpen (run exampleService staleTurn)
   \<and> sent (sendTextPrompt (utf16 ''hello'') (run exampleService staleTurn))
       = sent (run exampleService staleTurn) @ [(0, ClientContentText (utf16 ''hello''))]
   \<and> accumulatedResponse (sendTextPrompt (utf16 ''hello'') (run exampleService staleTurn))
       = utf16 ''stale''
   \<and> accumulatedResponse
        (sendImageWithPrompt (utf16 ''AAAA'') (utf16 ''hello'') None
           (run exampleService staleTurn)) = []"
proof -
  have o: "socketOpen (run exampleService staleTurn)"
    by (simp add: socketOpen_def run_staleTurn)
  show ?thesis
    using o sendImageWithPrompt_clears_buffer [OF o]
    by (simp add: run_staleTurn sendTextPrompt_keeps_buffer)
       (simp add: sendTextPrompt_def wsSend_def run_staleTurn)
qed

subsection \<open>An explicit disconnect\<close>

lemma disconnect_closes:
  "currentStatus (disconnect w) = Disconnected"
  "ws (disconnect w) = None"
  "timers (disconnect w) = timers w"
  "ws w = Some s \<Longrightarrow> sockets (disconnect w) = closeSocket s (sockets w)"
  by (simp_all add: disconnect_def setStatus_fields split: option.splits)

lemma disconnect_then_close:
  "reconnectAttempts w < maxReconnectAttempts \<Longrightarrow>
   timers (run w [CallDisconnect, SocketClosed s]) = timers w @ [2000 * (reconnectAttempts w + 1)]"
  by (simp add: run_def onclose_counter disconnect_counter)

text \<open>
  C2. \<^verbatim>\<open>disconnect\<close> closes the socket, forgets it and reports the status
  disconnected; the close event of that socket then runs the same \<^verbatim>\<open>onclose\<close> handler
  as any other closure, which schedules a reconnect, and the timer reconnects.
\<close>

theorem disconnect_reconnects:
  "feasible exampleService (explicitDisconnect @ [TimerFired 0])
   \<and> sockets (run exampleService [CallConnect, SocketOpened 0, CallDisconnect]) = [CLOSING]
   \<and> timers (run exampleService [CallConnect, SocketOpened 0, CallDisconnect]) = []
   \<and> timers (run exampleService explicitDisconnect) = [2000]
   \<and> currentStatus (run exampleService explicitDisconnect) = Disconnected
   \<and> currentStatus (run exampleService (explicitDisconnect @ [TimerFired 0])) = Connecting
   \<and> sockets (run exampleService (explicitDisconnect @ [TimerFired 0])) = [CLOSED, CONNECTING]"
  by (simp add: explicitDisconnect_def exampleService_def exampleSurroundings_def service_defs)

subsection \<open>The configuration is never assigned\<close>

lemma config_step: "config (step w e) = config w"
proof (cases e)
  case (SocketMessage d)
  have "config (handleMessage t w) = config w" for t
    using sameTransport_handleMessage [of w t] by (simp add: sameTransport_def)
  with SocketMessage show ?thesis
    by (simp add: onmessage_def split: frame_data.splits)
next
  case (BlobRead i)
  have "config (handleMessage t v) = config v" for t v
    using sameTransport_handleMessage [of v t] by (simp add: sameTransport_def)
  with BlobRead show ?thesis
    by (simp add: onBlobRead_def)
next
  case (CallUnregister r h)
  then show ?thesis by (simp add: unregister_dropAll dropAll_fields)
qed (simp_all add: connect_def disconnect_def onopen_def onerror_def onclose_def
      sendSetupMessage_def sendVideoFrame_def sendImageWithPrompt_def sendTextPrompt_def
      onMessage_def onStatusChange_def onDefectReport_def setStatus_fields wsSend_fields
      Let_def split: option.splits)

lemma config_run: "config (run w es) = config w"
  by (induction es rule: rev_induct) (simp_all add: run_def config_step)

text \<open>
  C10. While the module variable holds an instance, the accessor returns that instance
  and changes nothing, whatever configuration it is given: after a first call with
  \<open>c1\<close> on an empty module, and any use of the instance, a call with \<open>c2\<close> returns
  the same address and the instance is still configured from \<open>c1\<close>. After
  \<^verbatim>\<open>resetGeminiLiveService\<close> the variable is \<^verbatim>\<open>null\<close>, and the next call builds
  another instance, configured from its own argument.
\<close>

theorem singleton_keeps_first_config:
  "serviceInstance m = None \<longrightarrow>
     (let a = fst (getGeminiLiveService e1 c1 m);
          m1 = useInstance a es (snd (getGeminiLiveService e1 c1 m));
          m2 = resetGeminiLiveService m1
      in getGeminiLiveService e2 c2 m1 = (a, m1)
         \<and> config (heap m1 ! a) = mergeConfig c1
         \<and> serviceInstance m2 = None
         \<and> fst (getGeminiLiveService e2 c2 m2) \<noteq> a
         \<and> config (heap (snd (getGeminiLiveService e2 c2 m2)) ! fst (getGeminiLiveService e2 c2 m2))
             = mergeConfig c2)"
proof
  assume n: "serviceInstance m = None"
  define a where "a = fst (getGeminiLiveService e1 c1 m)"
  define m1 where "m1 = useInstance a es (snd (getGeminiLiveService e1 c1 m))"
  define m2 where "m2 = resetGeminiLiveService m1"
  have a: "a = length (heap m)"
    using n by (simp add: a_def getGeminiLiveService_def)
  have h1: "heap m1 = heap m @ [run (newGeminiLiveService e1 c1) es]"
    using n by (simp add: m1_def a useInstance_def getGeminiLiveService_def)
  have s1: "serviceInstance m1 = Some a"
    using n by (simp add: m1_def a useInstance_def getGeminiLiveService_def)
  have g: "getGeminiLiveService e2 c2 m1 = (a, m1)"
    by (simp add: getGeminiLiveService_def s1)
  have c: "config (heap m1 ! a) = mergeConfig c1"
    by (simp add: h1 a config_run newGeminiLiveService_def)
  have s2: "serviceInstance m2 = None"
    by (simp add: m2_def resetGeminiLiveService_def s1)
  have l2: "length (heap m2) = Suc a"
    by (simp add: m2_def resetGeminiLiveService_def s1 h1 a)
  have f: "fst (getGeminiLiveService e2 c2 m2) = Suc a"
    by (simp add: getGeminiLiveService_def s2 l2)
  have d: "config (heap (snd (getGeminiLiveService e2 c2 m2)) ! fst (getGeminiLiveService e2 c2 m2))
      = mergeConfig c2"
    by (simp add: getGeminiLiveService_def s2 l2 nth_append newGeminiLiveService_def)
  show "let a = fst (getGeminiLiveService e1 c1 m);
          m1 = useInstance a es (snd (getGeminiLiveService e1 c1 m));
          m2 = resetGeminiLiveService m1
      in getGeminiLiveService e2 c2 m1 = (a, m1)
         \<and> config (heap m1 ! a) = mergeConfig c1
         \<and> serviceInstance m2 = None
         \<and> fst (getGeminiLiveService e2 c2 m2) \<noteq> a
         \<and> config (heap (snd (getGeminiLiveService e2 c2 m2)) ! fst (getGeminiLiveService e2 c2 m2))
             = mergeConfig c2"
    unfolding Let_def
    using g c s2 f d
    by (simp add: a_def [symmetric] m1_def [symmetric] m2_def [symmetric])
qed

theorem singleton_keeps_first_config_witness:
  "serviceInstance emptyModule = None
   \<and> fst (getGeminiLiveService exampleSurroundings exampleConfig emptyModule) = 0
   \<and> fst (getGeminiLiveService exampleSurroundings otherConfig
          (useInstance 0 [CallConnect]
             (snd (getGeminiLiveService exampleSurroundings exampleConfig emptyModule)))) = 0
   \<and> cfg_apiKey (config (heap (useInstance 0 [CallConnect]
          (snd (getGeminiLiveService exampleSurroundings exampleConfig emptyModule))) ! 0))
       = utf16 ''key''
   \<and> mergeConfig exampleConfig \<noteq> mergeConfig otherConfig"
proof -
  have n: "serviceInstance emptyModule = None"
    by (simp add: emptyModule_def)
  have z: "fst (getGeminiLiveService exampleSurroundings exampleConfig emptyModule) = 0"
    by (simp add: emptyModule_def getGeminiLiveService_def)
  have k: "cfg_apiKey (mergeConfig exampleConfig) = utf16 ''key''"
    "cfg_apiKey (mergeConfig otherConfig) = utf16 ''other key''"
    by (simp_all add: mergeConfig_def exampleConfig_def otherConfig_def)
  have ne: "mergeConfig exampleConfig \<noteq> mergeConfig otherConfig"
  proof
    assume "mergeConfig exampleConfig = mergeConfig otherConfig"
    then have "cfg_apiKey (mergeConfig exampleConfig) = cfg_apiKey (mergeConfig otherConfig)"
      by simp
    then show False by (simp add: k utf16_def)
  qed
  show ?thesis
    using singleton_keeps_first_config [of emptyModule exampleSurroundings exampleConfig
        "[CallConnect]" exampleSurroundings otherConfig] n ne
    by (simp add: Let_def z k)
qed

subsection \<open>What the patterns match\<close>

lemma rx_cons_Some:
  "rx_cons l r = Some (m, cap) \<Longrightarrow> \<exists>m'. r = Some (m', cap) \<and> m = l @ m'"
  by (auto simp: rx_cons_def split: option.splits)

lemma rx_capture_Some:
  "rx_capture c r = Some (m, cap) \<Longrightarrow> \<exists>m' cap'. r = Some (m', cap') \<and> m = c # m' \<and> cap = c # cap'"
  by (auto simp: rx_capture_def split: option.splits)

lemma rx_orelse_Some:
  "rx_orelse a b = Some r \<Longrightarrow> a = Some r \<or> (a = None \<and> b = Some r)"
  by (auto simp: rx_orelse_def split: option.splits)

lemma prefix_drop_append: "prefix l s \<Longrightarrow> prefix m (drop (length l) s) \<Longrightarrow> prefix (l @ m) s"
  by (auto simp: prefix_def)

lemma rx_at_sound:
  "rx_at p s = Some (m, cap) \<Longrightarrow> prefix m s \<and> subseq cap m"
proof (induction p s arbitrary: m cap rule: rx_at.induct)
  case (1 s)
  then show ?case by simp
next
  case (2 l r s)
  from "2.prems" have pl: "prefix l s"
    and c: "rx_cons l (rx_at r (drop (length l) s)) = Some (m, cap)"
    by (auto split: if_splits)
  from rx_cons_Some [OF c] obtain m' where
    r: "rx_at r (drop (length l) s) = Some (m', cap)" and m: "m = l @ m'" by blast
  from "2.IH" [OF pl r] have "prefix m' (drop (length l) s)" "subseq cap m'" by simp_all
  with pl m show ?case
    by (simp add: prefix_drop_append subseq_drop_many)
next
  case (3 l r s)
  from rx_orelse_Some [OF "3.prems" [simplified]] show ?case
  proof
    assume a: "(if prefix l s then rx_cons l (rx_at r (drop (length l) s)) else None) = Some (m, cap)"
    then have pl: "prefix l s"
      and c: "rx_cons l (rx_at r (drop (length l) s)) = Some (m, cap)"
      by (auto split: if_splits)
    from rx_cons_Some [OF c] obtain m' where
      r: "rx_at r (drop (length l) s) = Some (m', cap)" and m: "m = l @ m'" by blast
    from "3.IH"(1) [OF pl r] have "prefix m' (drop (length l) s)" "subseq cap m'" by simp_all
    with pl m show ?thesis
      by (simp add: prefix_drop_append subseq_drop_many)
  next
    assume "(if prefix l s then rx_cons l (rx_at r (drop (length l) s)) else None) = None
        \<and> rx_at r s = Some (m, cap)"
    then show ?thesis using "3.IH"(2) by blast
  qed
next
  case (4 P r)
  from "4.prems" have "rx_at r [] = Some (m, cap)" by simp
  then show ?case by (rule "4.IH")
next
  case (5 P r c cs)
  show ?case
  proof (cases "P c")
    case True
    with "5.prems" have "rx_orelse (rx_cons [c] (rx_at (Star P # r) cs)) (rx_at r (c # cs)) = Some (m, cap)"
      by simp
    from rx_orelse_Some [OF this] show ?thesis
    proof
      assume "rx_cons [c] (rx_at (Star P # r) cs) = Some (m, cap)"
      from rx_cons_Some [OF this] obtain m' where
        r: "rx_at (Star P # r) cs = Some (m', cap)" and m: "m = [c] @ m'" by blast
      from "5.IH"(1) [OF True r] m show ?thesis
        by (simp add: subseq_drop_many [of _ _ "[c]", simplified])
    next
      assume "rx_cons [c] (rx_at (Star P # r) cs) = None \<and> rx_at r (c # cs) = Some (m, cap)"
      then show ?thesis using "5.IH"(2) [OF True] by blast
    qed
  next
    case False
    with "5.prems" "5.IH"(3) show ?thesis by simp
  qed
next
  case (6 P r)
  from "6.prems" have "rx_at r [] = Some (m, cap)" by simp
  then show ?case by (rule "6.IH")
next
  case (7 P r c cs)
  from rx_orelse_Some [OF "7.prems" [simplified]] show ?case
  proof
    assume "rx_at r (c # cs) = Some (m, cap)"
    then show ?thesis using "7.IH"(1) by blast
  next
    assume a: "rx_at r (c # cs) = None
        \<and> (if P c then rx_capture c (rx_at (CapLazy P # r) cs) else None) = Some (m, cap)"
    then have pc: "P c" and c: "rx_capture c (rx_at (CapLazy P # r) cs) = Some (m, cap)"
      by (auto split: if_splits)
    from rx_capture_Some [OF c] obtain m' cap' where
      r: "rx_at (CapLazy P # r) cs = Some (m', cap')" and m: "m = c # m'" "cap = c # cap'"
      by blast
    from "7.IH"(2) [OF pc r] m show ?thesis by simp
  qed
qed

lemma rx_match_sound:
  "rx_match p s = Some (m, cap) \<Longrightarrow> \<exists>t. suffix t s \<and> rx_at p t = Some (m, cap)"
proof (induction s)
  case Nil
  then show ?case by auto
next
  case (Cons c cs)
  from rx_orelse_Some [OF Cons.prems [simplified]] show ?case
  proof
    assume "rx_at p (c # cs) = Some (m, cap)"
    then show ?thesis by (intro exI [of _ "c # cs"]) simp
  next
    assume "rx_at p (c # cs) = None \<and> rx_match p cs = Some (m, cap)"
    with Cons.IH obtain t where "suffix t cs" "rx_at p t = Some (m, cap)" by blast
    then show ?thesis by (intro exI [of _ t]) (simp add: suffix_Cons)
  qed
qed

lemma rx_match_subseq:
  assumes "rx_match p s = Some (m, cap)"
  shows "subseq m s" "subseq cap s"
proof -
  from rx_match_sound [OF assms] obtain t where t: "suffix t s" "rx_at p t = Some (m, cap)"
    by blast
  from rx_at_sound [OF t(2)] have "subseq m t" "subseq cap m" by auto
  with t(1) show "subseq m s" "subseq cap s"
    by (meson subseq_order.trans suffix_imp_subseq)+
qed

lemma subseq_trim: "subseq (trim s) s"
proof -
  have "prefix (rev (dropWhile isWhiteSpace (rev (dropWhile isWhiteSpace s)))) (dropWhile isWhiteSpace s)"
    by (metis suffix_dropWhile suffix_to_prefix rev_rev_ident)
  then have "subseq (trim s) (dropWhile isWhiteSpace s)"
    by (simp add: trim_def prefix_imp_subseq)
  moreover have "subseq (dropWhile isWhiteSpace s) s"
    by (simp add: suffix_dropWhile suffix_imp_subseq)
  ultimately show ?thesis by (rule subseq_order.trans)
qed

lemma subseq_cleanText: "subseq (cleanText t) t"
  by (auto simp: cleanText_def split: option.splits
      intro: subseq_order.trans [OF subseq_trim] rx_match_subseq(2))

lemma star_then_literal:
  "rx_at [Star P, Lit l] s = Some (m, cap) \<Longrightarrow> suffix l m"
proof (induction s arbitrary: m)
  case Nil
  then show ?case
    by (auto simp: rx_cons_def split: if_splits)
next
  case (Cons c cs)
  have base: "rx_at [Lit l] (c # cs) = Some (m, cap) \<Longrightarrow> suffix l m" for m
    by (auto simp: rx_cons_def split: if_splits)
  show ?case
  proof (cases "P c")
    case True
    with Cons.prems
    have "rx_orelse (rx_cons [c] (rx_at [Star P, Lit l] cs)) (rx_at [Lit l] (c # cs)) = Some (m, cap)"
      by simp
    from rx_orelse_Some [OF this] show ?thesis
    proof
      assume "rx_cons [c] (rx_at [Star P, Lit l] cs) = Some (m, cap)"
      from rx_cons_Some [OF this] obtain m' where
        "rx_at [Star P, Lit l] cs = Some (m', cap)" "m = [c] @ m'" by blast
      with Cons.IH show ?thesis by (simp add: suffix_Cons)
    next
      assume "rx_cons [c] (rx_at [Star P, Lit l] cs) = None \<and> rx_at [Lit l] (c # cs) = Some (m, cap)"
      then show ?thesis using base by blast
    qed
  next
    case False
    with Cons.prems base show ?thesis by simp
  qed
qed

lemma jsonObjectPattern_shape:
  assumes "rx_at jsonObjectPattern s = Some (m, cap)"
  shows "\<exists>u. m = LBRACE # u @ [RBRACE]"
proof -
  from assms have "rx_cons [LBRACE] (rx_at [Star anyChar, Lit [RBRACE]] (drop 1 s)) = Some (m, cap)"
    by (simp add: jsonObjectPattern_def split: if_splits)
  from rx_cons_Some [OF this] obtain m' where
    r: "rx_at [Star anyChar, Lit [RBRACE]] (drop 1 s) = Some (m', cap)" and m: "m = [LBRACE] @ m'"
    by blast
  from star_then_literal [OF r] obtain u where "m' = u @ [RBRACE]"
    by (auto simp: suffix_def)
  with m show ?thesis by simp
qed

lemma jsonCandidate_shape:
  assumes "jsonCandidate t = Some c"
  shows "\<exists>u. c = LBRACE # u @ [RBRACE]" "subseq c t"
proof -
  from assms obtain cap where r: "rx_match jsonObjectPattern (cleanText t) = Some (c, cap)"
    by (auto simp: jsonCandidate_def)
  from rx_match_sound [OF r] obtain s where "rx_at jsonObjectPattern s = Some (c, cap)"
    by blast
  then show "\<exists>u. c = LBRACE # u @ [RBRACE]" by (rule jsonObjectPattern_shape)
  from rx_match_subseq(1) [OF r] show "subseq c t"
    by (rule subseq_order.trans [OF _ subseq_cleanText])
qed

lemma no_braces_no_candidate:
  assumes "\<not> subseq [LBRACE, RBRACE] t"
  shows "jsonCandidate t = None"
proof (rule ccontr)
  assume "jsonCandidate t \<noteq> None"
  then obtain c where c: "jsonCandidate t = Some c" by blast
  from jsonCandidate_shape [OF c] obtain u where u: "c = LBRACE # u @ [RBRACE]" and s: "subseq c t"
    by blast
  have "subseq [LBRACE, RBRACE] c"
    unfolding u by (simp add: subseq_rev_drop_many [of "[]" "[]", simplified] list_emb_append2)
  with s assms show False by (meson subseq_order.trans)
qed

subsection \<open>A text that starts with a brace parses to an object\<close>

lemma bottomObject_Cons: "st \<noteq> [] \<Longrightarrow> bottomObject (f # st) = bottomObject st"
  by (cases st) simp_all

lemma bottomObject_push: "bottomObject st \<Longrightarrow> bottomObject (f # st)"
  by (cases st) simp_all

lemma bottomObject_replace_top:
  "bottomObject (f # st) \<Longrightarrow> (\<And>xs. g \<noteq> InArray xs) \<Longrightarrow> bottomObject (g # st)"
  by (cases st; cases g; auto)

lemma objectOpen_value_done: "bottomObject st \<Longrightarrow> objectOpen (value_done v st)"
proof (cases st)
  case Nil
  assume "bottomObject st"
  with Nil show ?thesis by simp
next
  case (Cons f st')
  assume b: "bottomObject st"
  show ?thesis
  proof (cases st')
    case Nil
    with b Cons show ?thesis by (cases f) simp_all
  next
    case (Cons g st'')
    with b \<open>st = f # st'\<close> show ?thesis by (cases f) simp_all
  qed
qed

lemma objectOpen_close_array: "bottomObject st \<Longrightarrow> objectOpen (close_array st)"
proof (cases st)
  case Nil
  then show ?thesis by simp
next
  case (Cons f st')
  assume b: "bottomObject st"
  show ?thesis
  proof (cases f)
    case (InArray xs)
    with b Cons have "st' \<noteq> []" by (cases st') simp_all
    with b Cons InArray have "bottomObject st'" by (simp add: bottomObject_Cons)
    with Cons InArray show ?thesis by (simp add: objectOpen_value_done)
  qed (simp_all add: Cons)
qed

lemma objectOpen_close_object: "bottomObject st \<Longrightarrow> objectOpen (close_object st)"
proof (cases st)
  case Nil
  then show ?thesis by simp
next
  case (Cons f st')
  assume b: "bottomObject st"
  show ?thesis
  proof (cases f)
    case (InObject ms)
    show ?thesis
    proof (cases st')
      case Nil
      with Cons InObject show ?thesis by simp
    next
      case (Cons g st'')
      with b \<open>st = f # st'\<close> InObject have "bottomObject st'" by simp
      with \<open>st = f # st'\<close> InObject show ?thesis by (simp add: objectOpen_value_done)
    qed
  qed (simp_all add: Cons)
qed

lemma objectOpen_begin_value: "bottomObject st \<Longrightarrow> objectOpen (begin_value t st)"
  by (cases t) (simp_all add: objectOpen_value_done bottomObject_push)

lemma objectOpen_begin_member: "bottomObject st \<Longrightarrow> objectOpen (begin_member k st)"
proof (cases st)
  case Nil
  then show ?thesis by simp
next
  case (Cons f st')
  assume "bottomObject st"
  with Cons show ?thesis
    by (cases f) (auto intro: bottomObject_replace_top)
qed

lemma objectOpen_after_comma: "bottomObject st \<Longrightarrow> objectOpen (after_comma st)"
proof (cases st)
  case Nil
  then show ?thesis by simp
next
  case (Cons f st')
  assume "bottomObject st"
  with Cons show ?thesis by (cases f) simp_all
qed

lemma objectOpen_step: "objectOpen p \<Longrightarrow> objectOpen (parse_step p t)"
proof (cases p)
  case (Parsing e st)
  assume "objectOpen p"
  with Parsing have b: "bottomObject st" by simp
  show ?thesis
    by (cases e; cases t)
       (simp_all add: Parsing b objectOpen_value_done bottomObject_push
         objectOpen_close_array objectOpen_close_object objectOpen_begin_member
         objectOpen_after_comma)
qed simp_all

lemma objectOpen_foldl: "objectOpen p \<Longrightarrow> objectOpen (foldl parse_step p ts)"
  by (induction ts arbitrary: p) (simp_all add: objectOpen_step)

lemma tokenize_brace: "tokenize (LBRACE # u) = tok TLBrace (tokenize u)"
  by (simp add: LBRACE_def)

lemma brace_parses_to_object:
  assumes "JSON_parse (LBRACE # u) = Inr v"
  shows "\<exists>ms. v = JObject ms"
proof -
  from assms obtain ts where ts: "tokenize (LBRACE # u) = Some ts"
    and d: "foldl parse_step (Parsing ExpectValue []) ts = Done v"
    unfolding JSON_parse_def
    by (cases "tokenize (LBRACE # u)";
        cases "foldl parse_step (Parsing ExpectValue []) (the (tokenize (LBRACE # u)))")
       simp_all
  from ts obtain ts' where "ts = TLBrace # ts'"
    unfolding tokenize_brace tok_def by auto
  with d have "foldl parse_step (Parsing ExpectKeyOrClose [InObject []]) ts' = Done v"
    by simp
  moreover have "objectOpen (foldl parse_step (Parsing ExpectKeyOrClose [InObject []]) ts')"
    by (rule objectOpen_foldl) simp
  ultimately have "objectOpen (Done v)" by simp
  then show ?thesis by (cases v) simp_all
qed

lemma candidate_parses_to_object:
  "jsonCandidate t = Some c \<Longrightarrow> JSON_parse c = Inr v \<Longrightarrow> \<exists>ms. v = JObject ms"
  using jsonCandidate_shape(1) [of t c] brace_parses_to_object by blast

subsection \<open>What the report extractor emits\<close>

lemma stampReport_object: "stampReport now (JObject ms) = Inr (withTimestamp now ms)"
  by (simp add: stampReport_def withTimestamp_def)

lemma parseDefectReport_none:
  "jsonCandidate t = None \<Longrightarrow> parseDefectReport_try t w = (None, w)"
  by (simp add: parseDefectReport_try_def)

lemma parseDefectReport_malformed:
  "jsonCandidate t = Some c \<Longrightarrow> JSON_parse c = Inl e \<Longrightarrow> parseDefectReport_try t w = (Some e, w)"
  by (simp add: parseDefectReport_try_def)

lemma parseDefectReport_object:
  "jsonCandidate t = Some c \<Longrightarrow> JSON_parse c = Inr (JObject ms) \<Longrightarrow>
   parseDefectReport_try t w =
     (None, forEach (defectHandlers w) (ReportArg (withTimestamp (clock (outside w)) ms)) w)"
  by (simp add: parseDefectReport_try_def stampReport_object)

lemma toISOString_nonempty: "toISOString d \<noteq> []"
  by (simp add: toISOString_def utf16_def)

lemma toISOString_example:
  "toISOString (clock exampleSurroundings) = utf16 ''2026-11-03T12:00:00.000Z''"
  by code_simp

lemma candidate_exampleTurn: "jsonCandidate exampleTurn = Some exampleReportText"
  by code_simp

lemma parse_exampleReportText:
  "JSON_parse exampleReportText =
     Inr (JObject
       [(utf16 ''device_type'', JString (utf16 ''iPhone 12'')),
        (utf16 ''condition_score'', JNumber 8),
        (utf16 ''overall_condition'', JString (utf16 ''Good'')),
        (utf16 ''defects'', JArray []),
        (utf16 ''recommendations'', JArray []),
        (utf16 ''timestamp'', JString [])])"
  by code_simp

lemma candidate_noDeviceTurn: "\<not> subseq [LBRACE, RBRACE] noDeviceTurn"
  by code_simp

lemma candidate_trailingCommaTurn:
  "jsonCandidate trailingCommaTurn
     = Some (utf16 ''{'' @ quoted ''device_type'' @ utf16 '':'' @ quoted ''iPhone 12'' @ utf16 '',}'')"
  by code_simp

lemma parse_trailingComma:
  "JSON_parse (utf16 ''{'' @ quoted ''device_type'' @ utf16 '':'' @ quoted ''iPhone 12'' @ utf16 '',}'')
     = Inl SyntaxError"
  by code_simp

lemma candidate_braces: "jsonCandidate (utf16 ''{}'') = Some (utf16 ''{}'')"
  by code_simp

lemma parse_braces: "JSON_parse (utf16 ''{}'') = Inr (JObject [])"
  by code_simp

lemma candidate_oddReportText: "jsonCandidate oddReportText = Some oddReportText"
  by code_simp

lemma parse_oddReportText:
  "JSON_parse oddReportText = Inr (JObject [(utf16 ''condition_score'', JNumber 42)])"
  by code_simp

lemma reportListener_fields:
  "defectHandlers reportListener = [5]" "calls reportListener = []"
  "clock (outside reportListener) = clock exampleSurroundings"
  by (simp_all add: reportListener_def exampleService_def onDefectReport_def
      newGeminiLiveService_def)

text \<open>
  C7. For the fenced example of the specification, every report subscriber is called
  once, with the object of the example in which the empty \<^verbatim>\<open>timestamp\<close> has been
  replaced by the current time in ISO format, which is never empty.
\<close>

theorem example_report_emitted:
  "calls (parseDefectReport exampleTurn w) =
     calls w @
     map (\<lambda>h. (h, ReportArg
            [(utf16 ''device_type'', JString (utf16 ''iPhone 12'')),
             (utf16 ''condition_score'', JNumber 8),
             (utf16 ''overall_condition'', JString (utf16 ''Good'')),
             (utf16 ''defects'', JArray []),
             (utf16 ''recommendations'', JArray []),
             (utf16 ''timestamp'', JString (toISOString (clock (outside w))))]))
       (defectHandlers w)
   \<and> toISOString (clock (outside w)) \<noteq> []"
proof -
  have "withTimestamp now
      [(utf16 ''device_type'', JString (utf16 ''iPhone 12'')),
       (utf16 ''condition_score'', JNumber 8),
       (utf16 ''overall_condition'', JString (utf16 ''Good'')),
       (utf16 ''defects'', JArray []),
       (utf16 ''recommendations'', JArray []),
       (utf16 ''timestamp'', JString [])]
    = [(utf16 ''device_type'', JString (utf16 ''iPhone 12'')),
       (utf16 ''condition_score'', JNumber 8),
       (utf16 ''overall_condition'', JString (utf16 ''Good'')),
       (utf16 ''defects'', JArray []),
       (utf16 ''recommendations'', JArray []),
       (utf16 ''timestamp'', JString (toISOString now))]" for now
    by (simp add: withTimestamp_def utf16_def)
  then show ?thesis
    using parseDefectReport_object [OF candidate_exampleTurn parse_exampleReportText, of w]
    by (simp add: parseDefectReport_def forEach_fields toISOString_nonempty)
qed

theorem example_report_emitted_witness:
  "calls (parseDefectReport exampleTurn reportListener) =
     [(5, ReportArg
            [(utf16 ''device_type'', JString (utf16 ''iPhone 12'')),
             (utf16 ''condition_score'', JNumber 8),
             (utf16 ''overall_condition'', JString (utf16 ''Good'')),
             (utf16 ''defects'', JArray []),
             (utf16 ''recommendations'', JArray []),
             (utf16 ''timestamp'', JString (utf16 ''2026-11-03T12:00:00.000Z''))])]"
  using example_report_emitted [of reportListener]
  by (simp add: reportListener_fields toISOString_example)

text \<open>
  C8, as the code has it. A completed turn with no opening brace followed by a closing
  brace, and one whose candidate \<^verbatim>\<open>JSON.parse\<close> rejects, leave the service as it was: no
  callback is called, and the \<^verbatim>\<open>SyntaxError\<close> ends in the \<^verbatim>\<open>catch\<close> clause of the
  method. The candidate is the span from the first opening brace to the last closing
  brace of the fenced content (of the whole text when there is no fence); what the
  fenced content holds around that span is not looked at.
\<close>

theorem nothing_emitted_without_json:
  "(\<not> subseq [LBRACE, RBRACE] t \<longrightarrow>
      parseDefectReport_try t w = (None, w) \<and> parseDefectReport t w = w)
   \<and> (jsonCandidate t = Some c \<and> JSON_parse c = Inl e \<longrightarrow>
      parseDefectReport_try t w = (Some e, w) \<and> parseDefectReport t w = w)"
  by (simp add: parseDefectReport_def parseDefectReport_none parseDefectReport_malformed
      no_braces_no_candidate)

theorem nothing_emitted_without_json_witness:
  "\<not> subseq [LBRACE, RBRACE] noDeviceTurn
   \<and> parseDefectReport noDeviceTurn reportListener = reportListener
   \<and> jsonCandidate trailingCommaTurn
       = Some (utf16 ''{'' @ quoted ''device_type'' @ utf16 '':'' @ quoted ''iPhone 12'' @ utf16 '',}'')
   \<and> JSON_parse (utf16 ''{'' @ quoted ''device_type'' @ utf16 '':'' @ quoted ''iPhone 12'' @ utf16 '',}'')
       = Inl SyntaxError
   \<and> parseDefectReport trailingCommaTurn reportListener = reportListener
   \<and> defectHandlers reportListener = [5]"
  using nothing_emitted_without_json [of noDeviceTurn reportListener]
    nothing_emitted_without_json [of trailingCommaTurn reportListener
      "utf16 ''{'' @ quoted ''device_type'' @ utf16 '':'' @ quoted ''iPhone 12'' @ utf16 '',}''"
      SyntaxError]
    candidate_noDeviceTurn candidate_trailingCommaTurn parse_trailingComma
    reportListener_fields(1)
  by blast

lemma clean_commaAfterObjectTurn:
  "cleanText commaAfterObjectTurn
     = utf16 ''{'' @ quoted ''device_type'' @ utf16 '':'' @ quoted ''iPhone 12'' @ utf16 ''},''"
  by code_simp

lemma parse_commaAfterObject:
  "JSON_parse (utf16 ''{'' @ quoted ''device_type'' @ utf16 '':'' @ quoted ''iPhone 12'' @ utf16 ''},'')
     = Inl SyntaxError"
  by code_simp

lemma candidate_commaAfterObjectTurn:
  "jsonCandidate commaAfterObjectTurn
     = Some (utf16 ''{'' @ quoted ''device_type'' @ utf16 '':'' @ quoted ''iPhone 12'' @ utf16 ''}'')"
  by code_simp

lemma parse_commaAfterObject_candidate:
  "JSON_parse (utf16 ''{'' @ quoted ''device_type'' @ utf16 '':'' @ quoted ''iPhone 12'' @ utf16 ''}'')
     = Inr (JObject [(utf16 ''device_type'', JString (utf16 ''iPhone 12''))])"
  by code_simp

theorem malformed_fence_is_emitted:
  "cleanText commaAfterObjectTurn
     = utf16 ''{'' @ quoted ''device_type'' @ utf16 '':'' @ quoted ''iPhone 12'' @ utf16 ''},''
   \<and> JSON_parse (cleanText commaAfterObjectTurn) = Inl SyntaxError
   \<and> jsonCandidate commaAfterObjectTurn
       = Some (utf16 ''{'' @ quoted ''device_type'' @ utf16 '':'' @ quoted ''iPhone 12'' @ utf16 ''}'')
   \<and> defectHandlers reportListener = [5]
   \<and> calls reportListener = []
   \<and> calls (parseDefectReport commaAfterObjectTurn reportListener) =
       [(5, ReportArg
              [(utf16 ''device_type'', JString (utf16 ''iPhone 12'')),
               (utf16 ''timestamp'', JString (utf16 ''2026-11-03T12:00:00.000Z''))])]"
proof -
  have "parseDefectReport_try commaAfterObjectTurn reportListener =
     (None, forEach (defectHandlers reportListener)
        (ReportArg (withTimestamp (clock (outside reportListener))
           [(utf16 ''device_type'', JString (utf16 ''iPhone 12''))])) reportListener)"
    by (rule parseDefectReport_object
        [OF candidate_commaAfterObjectTurn parse_commaAfterObject_candidate])
  then have "calls (parseDefectReport commaAfterObjectTurn reportListener) =
       [(5, ReportArg (withTimestamp (clock exampleSurroundings)
              [(utf16 ''device_type'', JString (utf16 ''iPhone 12''))]))]"
    by (simp add: parseDefectReport_def forEach_fields reportListener_fields)
  moreover have "withTimestamp (clock exampleSurroundings)
        [(utf16 ''device_type'', JString (utf16 ''iPhone 12''))]
      = [(utf16 ''device_type'', JString (utf16 ''iPhone 12'')),
         (utf16 ''timestamp'', JString (utf16 ''2026-11-03T12:00:00.000Z''))]"
    by (simp add: withTimestamp_def toISOString_example utf16_def)
  moreover have "JSON_parse (cleanText commaAfterObjectTurn) = Inl SyntaxError"
    by (simp only: clean_commaAfterObjectTurn parse_commaAfterObject)
  ultimately show ?thesis
    using clean_commaAfterObjectTurn candidate_commaAfterObjectTurn reportListener_fields(1,2)
    by simp
qed

text \<open>
  C1, as the code has it. Whenever the candidate parses, the parsed object goes to every
  report subscriber, whatever members it has: only a missing or falsy \<^verbatim>\<open>timestamp\<close> is
  replaced. The extraction is abandoned only when there is no candidate or
  \<^verbatim>\<open>JSON.parse\<close> throws.
\<close>

theorem parsed_object_is_emitted:
  "jsonCandidate t = Some c \<and> JSON_parse c = Inr v \<longrightarrow>
     (\<exists>ms. v = JObject ms
        \<and> calls (parseDefectReport t w) =
            calls w @
            map (\<lambda>h. (h, ReportArg (withTimestamp (clock (outside w)) ms))) (defectHandlers w))"
proof
  assume a: "jsonCandidate t = Some c \<and> JSON_parse c = Inr v"
  then obtain ms where v: "v = JObject ms"
    using candidate_parses_to_object by blast
  with a have "parseDefectReport_try t w =
     (None, forEach (defectHandlers w) (ReportArg (withTimestamp (clock (outside w)) ms)) w)"
    by (simp add: parseDefectReport_object)
  then have "calls (parseDefectReport t w) =
      calls w @ map (\<lambda>h. (h, ReportArg (withTimestamp (clock (outside w)) ms))) (defectHandlers w)"
    by (simp add: parseDefectReport_def forEach_fields)
  with v show "\<exists>ms. v = JObject ms
        \<and> calls (parseDefectReport t w) =
            calls w @
            map (\<lambda>h. (h, ReportArg (withTimestamp (clock (outside w)) ms))) (defectHandlers w)"
    by blast
qed

theorem parsed_object_is_emitted_witness:
  "jsonCandidate oddReportText = Some oddReportText
   \<and> JSON_parse oddReportText = Inr (JObject [(utf16 ''condition_score'', JNumber 42)])
   \<and> calls (parseDefectReport oddReportText reportListener) =
       [(5, ReportArg [(utf16 ''condition_score'', JNumber 42),
                       (utf16 ''timestamp'', JString (utf16 ''2026-11-03T12:00:00.000Z''))])]"
proof -
  have w: "withTimestamp (clock exampleSurroundings) [(utf16 ''condition_score'', JNumber 42)]
      = [(utf16 ''condition_score'', JNumber 42),
         (utf16 ''timestamp'', JString (utf16 ''2026-11-03T12:00:00.000Z''))]"
    by (simp add: withTimestamp_def toISOString_example) (simp add: utf16_def)
  from parsed_object_is_emitted [of oddReportText oddReportText
      "JObject [(utf16 ''condition_score'', JNumber 42)]" reportListener]
    candidate_oddReportText parse_oddReportText
  have "calls (parseDefectReport oddReportText reportListener) =
      [(5, ReportArg (withTimestamp (clock exampleSurroundings)
             [(utf16 ''condition_score'', JNumber 42)]))]"
    by (simp add: reportListener_fields)
  with w candidate_oddReportText parse_oddReportText show ?thesis by simp
qed

theorem shapeless_object_is_emitted:
  "jsonCandidate (utf16 ''{}'') = Some (utf16 ''{}'')
   \<and> JSON_parse (utf16 ''{}'') = Inr (JObject [])
   \<and> defectHandlers reportListener = [5]
   \<and> calls (parseDefectReport (utf16 ''{}'') reportListener) =
       [(5, ReportArg [(utf16 ''timestamp'', JString (utf16 ''2026-11-03T12:00:00.000Z''))])]"
proof -
  have "parseDefectReport_try (utf16 ''{}'') reportListener =
     (None, forEach (defectHandlers reportListener)
        (ReportArg (withTimestamp (clock (outside reportListener)) [])) reportListener)"
    by (rule parseDefectReport_object [OF candidate_braces parse_braces])
  then have "calls (parseDefectReport (utf16 ''{}'') reportListener) =
       [(5, ReportArg (withTimestamp (clock exampleSurroundings) []))]"
    by (simp add: parseDefectReport_def forEach_fields reportListener_fields)
  moreover have "withTimestamp (clock exampleSurroundings) []
      = [(utf16 ''timestamp'', JString (utf16 ''2026-11-03T12:00:00.000Z''))]"
    by (simp add: withTimestamp_def toISOString_example)
  ultimately show ?thesis
    using candidate_braces parse_braces reportListener_fields(1) by simp
qed

subsection \<open>Fragments, the buffer and the raw-text subscribers\<close>






























end
